theory Spec2Isabelle
  imports Complex_Main
begin

section \<open>Python values shared by the modules\<close>

text \<open>
  Python exceptions are values. Every exception of interest is an instance of
  \<^verbatim>\<open>Exception\<close>, so \<^verbatim>\<open>except Exception\<close> catches each constructor below;
  \<open>str_of\<close> is Python's \<^verbatim>\<open>str(e)\<close>. \<open>Exception\<close> is what the source itself raises
  with \<^verbatim>\<open>raise Exception("...")\<close>; the other constructors are what the collaborators
  raise (\<^verbatim>\<open>None.lower()\<close>, \<^verbatim>\<open>open\<close>, the HTTP client).
\<close>

datatype exn =
    Exception (str_of: string)
  | AttributeError (str_of: string)
  | OSError (str_of: string)
  | APIError (str_of: string)

text \<open>
  Strings are lists of characters; a character outside ASCII stands as the bytes of its
  UTF-8 encoding, in which no byte of a longer sequence is an ASCII character, so that
  equality of strings and splitting at an ASCII separator are those of Python.
\<close>

text \<open>
  \<^verbatim>\<open>s.split(sep)\<close> for a one-character separator: the pieces between the separators, in
  order; the result is never the empty list (\<^verbatim>\<open>"".split("+") == [""]\<close>).
\<close>

fun str_split :: "char \<Rightarrow> string \<Rightarrow> string list" where
  "str_split sep [] = [[]]"
| "str_split sep (c # cs) =
     (if c = sep then [] # str_split sep cs
      else (case str_split sep cs of
              [] \<Rightarrow> [[c]]
            | t # ts \<Rightarrow> (c # t) # ts))"

section \<open>hotkey\_manager.py\<close>

text \<open>
  A keyboard event of the \<^verbatim>\<open>keyboard\<close> library. Its \<^verbatim>\<open>name\<close> is \<^verbatim>\<open>None\<close> for a key the
  library cannot name; \<^verbatim>\<open>event.name.lower()\<close> then raises \<^verbatim>\<open>AttributeError\<close>.
\<close>

record keyboard_event =
  event_type :: string
  name :: "string option"

text \<open>
  The state of a \<^verbatim>\<open>HotkeyManager\<close> that the modelled methods read or write.
  \<^verbatim>\<open>time.time()\<close> is a float; times are modelled as exact rationals (every finite float is
  one), so the rounding of the float subtraction is not part of the model.
\<close>

record hotkey_manager =
  program_enabled :: bool
  last_trigger_time :: rat

text \<open>\<^verbatim>\<open>HotkeyManager.__init__\<close>: enabled, last trigger at time 0.\<close>

definition hotkey_manager_init :: hotkey_manager where
  "hotkey_manager_init = \<lparr> program_enabled = True, last_trigger_time = 0 \<rparr>"

text \<open>
  \<^verbatim>\<open>_should_trigger_record_toggle\<close>. \<open>HOTKEY_DEBOUNCE_MS\<close> is \<^verbatim>\<open>config.HOTKEY_DEBOUNCE_MS\<close>
  (the module \<^verbatim>\<open>config\<close> is not part of the sources, so the constant is a parameter) and
  \<open>current_time\<close> is what \<^verbatim>\<open>time.time()\<close> returns. The result is the returned bool and
  the manager afterwards.
\<close>

definition should_trigger_record_toggle ::
  "rat \<Rightarrow> rat \<Rightarrow> hotkey_manager \<Rightarrow> bool \<times> hotkey_manager" where
  "should_trigger_record_toggle HOTKEY_DEBOUNCE_MS current_time self =
     (if current_time - last_trigger_time self > HOTKEY_DEBOUNCE_MS / 1000
      then (True, self\<lparr>last_trigger_time := current_time\<rparr>)
      else (False, self))"

text \<open>
  The first loop of \<^verbatim>\<open>_matches_hotkey\<close>: every listed modifier must be held.
  \<open>is_pressed\<close> is \<^verbatim>\<open>keyboard.is_pressed\<close>, the live state of the keyboard, read as one
  snapshot for the whole call.
\<close>

fun required_modifiers_held :: "(string \<Rightarrow> bool) \<Rightarrow> string list \<Rightarrow> bool" where
  "required_modifiers_held is_pressed [] = True"
| "required_modifiers_held is_pressed (modifier # rest) =
     (if modifier = ''ctrl'' \<and> \<not> is_pressed ''ctrl'' then False
      else if modifier = ''alt'' \<and> \<not> is_pressed ''alt'' then False
      else if modifier = ''shift'' \<and> \<not> is_pressed ''shift'' then False
      else if modifier = ''win'' \<and> \<not> is_pressed ''win'' then False
      else required_modifiers_held is_pressed rest)"

text \<open>
  \<^verbatim>\<open>_matches_hotkey(event, hotkey_string)\<close>. \<open>str_lower\<close> is Python's \<^verbatim>\<open>str.lower\<close>; its
  case tables cover every cased letter of Unicode and are not part of the sources, so
  the function is a parameter.
\<close>

definition matches_hotkey ::
  "(string \<Rightarrow> string) \<Rightarrow> (string \<Rightarrow> bool) \<Rightarrow> keyboard_event \<Rightarrow> string \<Rightarrow> exn + bool" where
  "matches_hotkey str_lower is_pressed event hotkey_string =
     (if hotkey_string = [] then Inr False
      else
        let parts = str_split (CHR ''+'') (str_lower hotkey_string);
            main_key = last parts;
            modifiers = butlast parts
        in case name event of
             None \<Rightarrow> Inl (AttributeError ''NoneType object has no attribute lower'')
           | Some event_name \<Rightarrow>
               if str_lower event_name \<noteq> main_key then Inr False
               else if \<not> required_modifiers_held is_pressed modifiers then Inr False
               else if ''ctrl'' \<notin> set modifiers \<and> is_pressed ''ctrl'' then Inr False
               else if ''alt'' \<notin> set modifiers \<and> is_pressed ''alt'' then Inr False
               else if ''shift'' \<notin> set modifiers \<and> is_pressed ''shift'' then Inr False
               else if ''win'' \<notin> set modifiers \<and> is_pressed ''win'' then Inr False
               else Inr True)"

section \<open>transcriber/base.py\<close>

text \<open>
  \<^verbatim>\<open>str.strip()\<close>: leading and trailing whitespace removed (the ASCII whitespace characters
  of \<^verbatim>\<open>str.isspace\<close>).
\<close>

definition is_space :: "char \<Rightarrow> bool" where
  "is_space c \<longleftrightarrow>
     c \<in> set [CHR 0x09, CHR 0x0A, CHR 0x0B, CHR 0x0C, CHR 0x0D,
                CHR 0x1C, CHR 0x1D, CHR 0x1E, CHR 0x1F, CHR 0x20]"

definition strip :: "string \<Rightarrow> string" where
  "strip s = rev (dropWhile is_space (rev (dropWhile is_space s)))"

text \<open>
  The fields of \<^verbatim>\<open>TranscriptionBackend\<close>. A subclass extends the record, so the methods of
  the base class work on every extension, as inherited methods do.
\<close>

record backend =
  is_transcribing :: bool
  should_cancel :: bool

text \<open>\<^verbatim>\<open>TranscriptionBackend.__init__\<close>.\<close>

definition backend_init :: backend where
  "backend_init = \<lparr> is_transcribing = False, should_cancel = False \<rparr>"

definition cancel_transcription :: "'a backend_scheme \<Rightarrow> 'a backend_scheme" where
  "cancel_transcription self = self\<lparr>should_cancel := True\<rparr>"

definition reset_cancel_flag :: "'a backend_scheme \<Rightarrow> 'a backend_scheme" where
  "reset_cancel_flag self = self\<lparr>should_cancel := False\<rparr>"

text \<open>
  A method that returns a string or raises: the result and the object afterwards.
\<close>

type_synonym 's transcribe_method = "string \<Rightarrow> 's \<Rightarrow> (exn + string) \<times> 's"

type_synonym 's transcribe_chunks_method = "string list \<Rightarrow> 's \<Rightarrow> (exn + string) \<times> 's"

text \<open>
  The loop of the default \<^verbatim>\<open>TranscriptionBackend.transcribe_chunks\<close>. \<open>transcribe\<close> is the
  subclass's \<^verbatim>\<open>self.transcribe\<close> (abstract in the base class); \<open>transcriptions\<close> is the
  list built so far. The loop ends with the list, or with the exception that left it.
\<close>

fun base_chunk_loop ::
  "'a backend_scheme transcribe_method \<Rightarrow> string list \<Rightarrow> string list \<Rightarrow> 'a backend_scheme
     \<Rightarrow> (exn + string list) \<times> 'a backend_scheme" where
  "base_chunk_loop transcribe [] transcriptions self = (Inr transcriptions, self)"
| "base_chunk_loop transcribe (chunk_file # rest) transcriptions self =
     (if should_cancel self then (Inl (Exception ''Transcription cancelled''), self)
      else (case transcribe chunk_file self of
              (Inl e, self') \<Rightarrow> (Inl e, self')
            | (Inr chunk_text, self') \<Rightarrow>
                base_chunk_loop transcribe rest (transcriptions @ [chunk_text]) self'))"

text \<open>
  \<^verbatim>\<open>TranscriptionBackend.transcribe_chunks\<close>. \<open>combine_transcriptions\<close> is
  \<^verbatim>\<open>audio_processor.combine_transcriptions\<close>; the module \<^verbatim>\<open>audio_processor\<close> is not part of the
  sources, so the function is a parameter.
\<close>

definition transcribe_chunks ::
  "(string list \<Rightarrow> string) \<Rightarrow> 'a backend_scheme transcribe_method
     \<Rightarrow> 'a backend_scheme transcribe_chunks_method" where
  "transcribe_chunks combine_transcriptions transcribe chunk_files self =
     (case base_chunk_loop transcribe chunk_files [] self of
        (Inl e, self') \<Rightarrow> (Inl e, self')
      | (Inr transcriptions, self') \<Rightarrow> (Inr (combine_transcriptions transcriptions), self'))"

section \<open>transcriber/openai\_backend.py\<close>

text \<open>
  The client object; it holds the key it was built with.
\<close>

datatype client = OpenAI (client_key: string)

text \<open>
  One request sent to the service, as recorded in the ghost field \<open>api_log\<close> below: the
  model, the file, and the value of \<^verbatim>\<open>is_transcribing\<close> when the request was sent.
\<close>

record api_call =
  call_model :: string
  call_file :: string
  call_transcribing :: bool

text \<open>
  \<^verbatim>\<open>OpenAIBackend\<close>. \<open>api_log\<close> is ghost state: the requests sent so far, oldest first.
\<close>

record openai_backend = backend +
  model_type :: string
  api_key :: "string option"
  client :: "client option"
  api_log :: "api_call list"

text \<open>
  The world outside the backend. A request, \<^verbatim>\<open>open(file, "rb")\<close> followed by
  \<^verbatim>\<open>client.audio.transcriptions.create\<close>, either raises or returns the response text; while
  it is in flight, another thread may call \<^verbatim>\<open>cancel_transcription()\<close>. The reply to the
  \<open>n\<close>-th request (counting from 0) for a model and a file is \<open>api n model file\<close>.
\<close>

record api_reply =
  reply_result :: "exn + string"
  cancel_during :: bool

type_synonym api = "nat \<Rightarrow> string \<Rightarrow> string \<Rightarrow> api_reply"

definition api_request ::
  "api \<Rightarrow> string \<Rightarrow> string \<Rightarrow> openai_backend \<Rightarrow> (exn + string) \<times> openai_backend" where
  "api_request api api_model file self =
     (let reply = api (length (api_log self)) api_model file;
          sent = self\<lparr>api_log := api_log self @
                   [\<lparr>call_model = api_model, call_file = file,
                     call_transcribing = is_transcribing self\<rparr>]\<rparr>
      in (reply_result reply, if cancel_during reply then cancel_transcription sent else sent))"

text \<open>
  \<^verbatim>\<open>_initialize_client\<close>. \<open>make_client\<close> is the constructor \<^verbatim>\<open>OpenAI(api_key=...)\<close>, with
  \<open>None\<close> when it raises.
\<close>

definition initialize_client :: "(string \<Rightarrow> client option) \<Rightarrow> openai_backend \<Rightarrow> openai_backend" where
  "initialize_client make_client self =
     (case api_key self of
        None \<Rightarrow> self\<lparr>client := None\<rparr>
      | Some k \<Rightarrow> if k \<noteq> [] then self\<lparr>client := make_client k\<rparr> else self\<lparr>client := None\<rparr>)"

text \<open>
  \<^verbatim>\<open>OpenAIBackend.__init__(model_type, api_key)\<close>. \<open>env_api_key\<close> is what \<^verbatim>\<open>_get_api_key()\<close>
  finds in the environment.
\<close>

definition openai_backend_init ::
  "(string \<Rightarrow> client option) \<Rightarrow> string option \<Rightarrow> string \<Rightarrow> string option \<Rightarrow> openai_backend" where
  "openai_backend_init make_client env_api_key model_type_arg api_key_arg =
     initialize_client make_client
       \<lparr> is_transcribing = False, should_cancel = False,
         model_type = model_type_arg,
         api_key = (case api_key_arg of
                      None \<Rightarrow> env_api_key
                    | Some k \<Rightarrow> if k \<noteq> [] then Some k else env_api_key),
         client = None, api_log = [] \<rparr>"

definition get_api_model_name :: "openai_backend \<Rightarrow> string" where
  "get_api_model_name self =
     (if model_type self = ''api_gpt4o'' then ''gpt-4o-transcribe''
      else if model_type self = ''api_gpt4o_mini'' then ''gpt-4o-mini-transcribe''
      else ''whisper-1'')"

definition is_available :: "openai_backend \<Rightarrow> bool" where
  "is_available self \<longleftrightarrow> client self \<noteq> None \<and> api_key self \<noteq> None"

definition update_api_key :: "(string \<Rightarrow> client option) \<Rightarrow> string \<Rightarrow> openai_backend \<Rightarrow> openai_backend" where
  "update_api_key make_client new_key self = initialize_client make_client (self\<lparr>api_key := Some new_key\<rparr>)"

definition change_model_type :: "string \<Rightarrow> openai_backend \<Rightarrow> openai_backend" where
  "change_model_type new_type self = self\<lparr>model_type := new_type\<rparr>"

definition not_available :: exn where
  "not_available =
     Exception ''OpenAI API is not available (no API key or client initialization failed)''"

text \<open>
  The \<^verbatim>\<open>try\<close> block of \<^verbatim>\<open>OpenAIBackend.transcribe\<close>; the \<^verbatim>\<open>except\<close> clause logs and re-raises.
\<close>

definition transcribe_try :: "api \<Rightarrow> openai_backend transcribe_method" where
  "transcribe_try api audio_file_path self =
     (let self1 = reset_cancel_flag (self\<lparr>is_transcribing := True\<rparr>);
          api_model = get_api_model_name self1
      in case api_request api api_model audio_file_path self1 of
           (Inl e, self2) \<Rightarrow> (Inl e, self2)
         | (Inr resp, self2) \<Rightarrow>
             if should_cancel self2 then (Inl (Exception ''Transcription cancelled''), self2)
             else (Inr (strip resp), self2))"

text \<open>\<^verbatim>\<open>OpenAIBackend.transcribe\<close>: the availability check, the \<^verbatim>\<open>try\<close> block, \<^verbatim>\<open>finally\<close>.\<close>

definition openai_transcribe :: "api \<Rightarrow> openai_backend transcribe_method" where
  "openai_transcribe api audio_file_path self =
     (if \<not> is_available self then (Inl not_available, self)
      else (case transcribe_try api audio_file_path self of
              (r, self') \<Rightarrow> (r, self'\<lparr>is_transcribing := False\<rparr>)))"

text \<open>
  \<^verbatim>\<open>OpenAIBackend.transcribe\<close> once more, cut at its blocking request, where other threads
  run: \<open>transcribe_enter\<close> is what the call does before it sends the request (the
  availability check and the first two statements of the \<^verbatim>\<open>try\<close> block);
  \<open>transcribe_leave\<close> is what it does with the outcome of the request (the rest of the
  \<^verbatim>\<open>try\<close> block, the \<^verbatim>\<open>except\<close> clause and \<^verbatim>\<open>finally\<close>).
\<close>

definition transcribe_enter :: "openai_backend \<Rightarrow> exn + openai_backend" where
  "transcribe_enter self =
     (if \<not> is_available self then Inl not_available
      else Inr (reset_cancel_flag (self\<lparr>is_transcribing := True\<rparr>)))"

definition transcribe_leave ::
  "(exn + string) \<times> openai_backend \<Rightarrow> (exn + string) \<times> openai_backend" where
  "transcribe_leave outcome =
     (case outcome of
        (Inl e, self) \<Rightarrow> (Inl e, self\<lparr>is_transcribing := False\<rparr>)
      | (Inr resp, self) \<Rightarrow>
          if should_cancel self
          then (Inl (Exception ''Transcription cancelled''), self\<lparr>is_transcribing := False\<rparr>)
          else (Inr (strip resp), self\<lparr>is_transcribing := False\<rparr>))"

text \<open>
  Two calls of \<^verbatim>\<open>transcribe\<close> on one backend object that overlap, as two workers of the
  thread pool can make them: the first call enters and waits for its request, the second
  call enters, the first call gets its response and leaves, the second call sends its
  request. The result is the backend at that moment, while the second call is still in
  its \<^verbatim>\<open>try\<close> block.
\<close>

definition overlapping_transcribes ::
  "api \<Rightarrow> string \<Rightarrow> string \<Rightarrow> openai_backend \<Rightarrow> exn + openai_backend" where
  "overlapping_transcribes api first_file second_file self =
     (case transcribe_enter self of
        Inl e \<Rightarrow> Inl e
      | Inr first_entered \<Rightarrow>
          (case transcribe_enter first_entered of
             Inl e \<Rightarrow> Inl e
           | Inr both_entered \<Rightarrow>
               (let first_left =
                      snd (transcribe_leave
                        (api_request api (get_api_model_name both_entered) first_file both_entered))
                in Inr (snd (api_request api (get_api_model_name first_left) second_file
                          first_left)))))"

text \<open>The \<^verbatim>\<open>for\<close> loop of \<^verbatim>\<open>OpenAIBackend.transcribe_chunks\<close>.\<close>

fun openai_chunk_loop ::
  "api \<Rightarrow> string \<Rightarrow> string list \<Rightarrow> string list \<Rightarrow> openai_backend
     \<Rightarrow> (exn + string list) \<times> openai_backend" where
  "openai_chunk_loop api api_model [] transcriptions self = (Inr transcriptions, self)"
| "openai_chunk_loop api api_model (chunk_file # rest) transcriptions self =
     (if should_cancel self then (Inl (Exception ''Transcription cancelled''), self)
      else (case api_request api api_model chunk_file self of
              (Inl e, self') \<Rightarrow> (Inl e, self')
            | (Inr resp, self') \<Rightarrow>
                openai_chunk_loop api api_model rest (transcriptions @ [strip resp]) self'))"

text \<open>The \<^verbatim>\<open>try\<close> block of \<^verbatim>\<open>OpenAIBackend.transcribe_chunks\<close>.\<close>

definition transcribe_chunks_try ::
  "(string list \<Rightarrow> string) \<Rightarrow> api \<Rightarrow> openai_backend transcribe_chunks_method" where
  "transcribe_chunks_try combine_transcriptions api chunk_files self =
     (let self1 = reset_cancel_flag (self\<lparr>is_transcribing := True\<rparr>);
          api_model = get_api_model_name self1
      in case openai_chunk_loop api api_model chunk_files [] self1 of
           (Inl e, self2) \<Rightarrow> (Inl e, self2)
         | (Inr transcriptions, self2) \<Rightarrow> (Inr (combine_transcriptions transcriptions), self2))"

text \<open>\<^verbatim>\<open>OpenAIBackend.transcribe_chunks\<close>.\<close>

definition openai_transcribe_chunks ::
  "(string list \<Rightarrow> string) \<Rightarrow> api \<Rightarrow> openai_backend transcribe_chunks_method" where
  "openai_transcribe_chunks combine_transcriptions api chunk_files self =
     (if \<not> is_available self then (Inl not_available, self)
      else (case transcribe_chunks_try combine_transcriptions api chunk_files self of
              (r, self') \<Rightarrow> (r, self'\<lparr>is_transcribing := False\<rparr>)))"

text \<open>
  The states an \<^verbatim>\<open>OpenAIBackend\<close> can be in between two calls of its methods: the one the
  constructor builds, and those the methods leave.
\<close>

inductive between_calls :: "openai_backend \<Rightarrow> bool" where
  constructed: "between_calls (openai_backend_init make_client env_api_key mt key)"
| after_transcribe:
    "between_calls self \<Longrightarrow> between_calls (snd (openai_transcribe api audio_file_path self))"
| after_transcribe_chunks:
    "between_calls self \<Longrightarrow>
     between_calls (snd (openai_transcribe_chunks combine_transcriptions api chunk_files self))"
| after_cancel_transcription: "between_calls self \<Longrightarrow> between_calls (cancel_transcription self)"
| after_reset_cancel_flag: "between_calls self \<Longrightarrow> between_calls (reset_cancel_flag self)"
| after_update_api_key:
    "between_calls self \<Longrightarrow> between_calls (update_api_key make_client new_key self)"
| after_change_model_type:
    "between_calls self \<Longrightarrow> between_calls (change_model_type new_type self)"

section \<open>ui/main\_window.py\<close>

text \<open>\<^verbatim>\<open>str(n)\<close> for a natural number, as the f-strings of the status messages use it.\<close>

function str_nat :: "nat \<Rightarrow> string" where
  "str_nat n =
     (if n < 10 then [''0123456789'' ! n]
      else str_nat (n div 10) @ [''0123456789'' ! (n mod 10)])"
  by pat_completeness auto
termination
  by (relation "measure id") auto

text \<open>
  The status messages of the transcription workers, by the place that issues them;
  \<open>status_text\<close> is the string shown.
\<close>

datatype status =
    Transcribing
  | ProcessingLargeAudioFile
  | SplitProgress string
  | TranscribingChunks nat
  | TranscribingChunk nat nat
  | CombiningTranscriptions

fun status_text :: "status \<Rightarrow> string" where
  "status_text Transcribing = ''Transcribing...''"
| "status_text ProcessingLargeAudioFile = ''Processing large audio file...''"
| "status_text (SplitProgress message) = message"
| "status_text (TranscribingChunks n) = ''Transcribing '' @ str_nat n @ '' chunks...''"
| "status_text (TranscribingChunk current_chunk total_chunks) =
     ''Transcribing chunk '' @ str_nat current_chunk @ ''/'' @ str_nat total_chunks @ ''...''"
| "status_text CombiningTranscriptions = ''Combining transcriptions...''"

text \<open>
  What a worker hands to the main thread with \<^verbatim>\<open>root.after(0, ...)\<close>, and what the main
  thread then does to the widgets.
\<close>

datatype callback =
    UpdateStatus status
  | OnTranscriptionComplete string
  | OnTranscriptionError string

datatype ui_action =
    ClearStatus
  | ShowError string string
  | SetStatus string
  | SetTranscriptionText string
  | PasteText string
  | ConfigButton string string
  | ShowCanceling string

text \<open>\<^verbatim>\<open>_on_transcription_complete\<close> and \<^verbatim>\<open>_on_transcription_error\<close>.\<close>

definition on_transcription_complete :: "string \<Rightarrow> ui_action list" where
  "on_transcription_complete transcribed_text =
     [SetTranscriptionText (''Transcription: '' @ transcribed_text),
      PasteText transcribed_text,
      ClearStatus,
      SetStatus ''Ready (Pasted)'',
      ConfigButton ''cancel_button'' ''disabled'',
      ConfigButton ''start_button'' ''normal'',
      ConfigButton ''open_file_button'' ''normal'']"

definition on_transcription_error :: "string \<Rightarrow> ui_action list" where
  "on_transcription_error error_message =
     [ClearStatus,
      ShowError ''Error'' (''Transcription failed: '' @ error_message),
      SetStatus ''Ready'',
      ConfigButton ''cancel_button'' ''disabled'',
      ConfigButton ''start_button'' ''normal'',
      ConfigButton ''open_file_button'' ''normal'']"

fun run_callback :: "callback \<Rightarrow> ui_action list" where
  "run_callback (UpdateStatus st) = [SetStatus (status_text st)]"
| "run_callback (OnTranscriptionComplete transcribed_text) =
     on_transcription_complete transcribed_text"
| "run_callback (OnTranscriptionError error_message) = on_transcription_error error_message"

text \<open>
  \<^verbatim>\<open>MainWindow.cancel_transcription\<close>, the handler of the cancel button and the cancel hotkey:
  the widget actions and the backend afterwards. \<open>is_recording\<close> is
  \<^verbatim>\<open>self.recorder.is_recording\<close>; \<open>current_backend\<close> is \<open>None\<close> when no backend is set.
\<close>

definition window_cancel_transcription ::
  "bool \<Rightarrow> 'a backend_scheme option \<Rightarrow> ui_action list \<times> 'a backend_scheme option" where
  "window_cancel_transcription is_recording backend_opt =
     (if is_recording then
        ([ConfigButton ''start_button'' ''normal'',
          ConfigButton ''stop_button'' ''disabled'',
          ConfigButton ''open_file_button'' ''normal'',
          ShowCanceling ''Recording Cancelled'',
          ConfigButton ''cancel_button'' ''disabled''], backend_opt)
      else (case backend_opt of
              Some b \<Rightarrow>
                if is_transcribing b then
                  ([ConfigButton ''start_button'' ''normal'',
                    ConfigButton ''open_file_button'' ''normal'',
                    ShowCanceling ''Transcription Cancelled'',
                    ConfigButton ''cancel_button'' ''disabled''], Some (cancel_transcription b))
                else
                  ([ShowCanceling ''Cancelled'',
                    ConfigButton ''start_button'' ''normal'',
                    ConfigButton ''open_file_button'' ''normal'',
                    ConfigButton ''cancel_button'' ''disabled''], backend_opt)
            | None \<Rightarrow>
                ([ShowCanceling ''Cancelled'',
                  ConfigButton ''start_button'' ''normal'',
                  ConfigButton ''open_file_button'' ''normal'',
                  ConfigButton ''cancel_button'' ''disabled''], backend_opt)))"

text \<open>
  The backend object as the window sees it: the bound method \<^verbatim>\<open>transcribe\<close>, and the
  attribute \<^verbatim>\<open>transcribe_chunks\<close> when \<^verbatim>\<open>hasattr(backend, 'transcribe_chunks')\<close> holds.
\<close>

record 's backend_methods =
  transcribe_m :: "'s transcribe_method"
  transcribe_chunks_m :: "'s transcribe_chunks_method option"

definition hasattr_transcribe_chunks :: "'s backend_methods \<Rightarrow> bool" where
  "hasattr_transcribe_chunks methods \<longleftrightarrow> transcribe_chunks_m methods \<noteq> None"

text \<open>
  Attribute lookup on an instance of a class derived from \<^verbatim>\<open>TranscriptionBackend\<close>:
  \<^verbatim>\<open>transcribe\<close> is the subclass's own (it is abstract in the base class);
  \<^verbatim>\<open>transcribe_chunks\<close> is the subclass's own when it overrides the method, and the
  inherited default of \<^verbatim>\<open>base.py\<close> otherwise.
\<close>

definition subclass_instance ::
  "(string list \<Rightarrow> string) \<Rightarrow> 'a backend_scheme transcribe_method
     \<Rightarrow> 'a backend_scheme transcribe_chunks_method option \<Rightarrow> 'a backend_scheme backend_methods" where
  "subclass_instance combine_transcriptions own_transcribe own_transcribe_chunks =
     \<lparr> transcribe_m = own_transcribe,
       transcribe_chunks_m =
         Some (case own_transcribe_chunks of
                 Some overriding \<Rightarrow> overriding
               | None \<Rightarrow> transcribe_chunks combine_transcriptions own_transcribe) \<rparr>"

text \<open>
  The module \<^verbatim>\<open>audio_processor\<close> is not part of the sources; its three functions are
  parameters. \<open>ap_split_audio_file\<close> gives the messages passed to the progress callback and
  then the chunk files or the exception; \<open>ap_cleanup_temp_files\<close> is the exception the
  cleanup raises, if any.
\<close>

record audio_processor =
  ap_split_audio_file :: "string \<Rightarrow> string list \<times> (exn + string list)"
  ap_combine_transcriptions :: "string list \<Rightarrow> string"
  ap_cleanup_temp_files :: "exn option"

text \<open>
  The part of \<^verbatim>\<open>MainWindow\<close> the transcription workers touch: the backend object, the
  queue of \<^verbatim>\<open>root.after(0, ...)\<close> callbacks in the order they were queued, and two ghost
  fields, the number of calls of \<^verbatim>\<open>cleanup_temp_files\<close> and the warnings logged.
\<close>

record 's main_window =
  current_backend :: 's
  scheduled :: "callback list"
  cleanup_calls :: nat
  warnings :: "string list"

definition root_after :: "callback \<Rightarrow> 's main_window \<Rightarrow> 's main_window" where
  "root_after cb self = self\<lparr>scheduled := scheduled self @ [cb]\<rparr>"

text \<open>
  The fallback loop of \<^verbatim>\<open>_transcribe_large_audio\<close> (the \<^verbatim>\<open>else\<close> branch of the
  \<^verbatim>\<open>hasattr\<close> test); \<open>i\<close> is the index \<^verbatim>\<open>enumerate\<close> gives.
\<close>

fun fallback_chunk_loop ::
  "'s transcribe_method \<Rightarrow> nat \<Rightarrow> nat \<Rightarrow> string list \<Rightarrow> string list \<Rightarrow> 's main_window
     \<Rightarrow> (exn + string list) \<times> 's main_window" where
  "fallback_chunk_loop transcribe i total_chunks [] transcriptions self =
     (Inr transcriptions, self)"
| "fallback_chunk_loop transcribe i total_chunks (chunk_file # rest) transcriptions self =
     (let self1 = root_after (UpdateStatus (TranscribingChunk (i + 1) total_chunks)) self
      in case transcribe chunk_file (current_backend self1) of
           (Inl e, b) \<Rightarrow> (Inl e, self1\<lparr>current_backend := b\<rparr>)
         | (Inr chunk_transcription, b) \<Rightarrow>
             fallback_chunk_loop transcribe (i + 1) total_chunks rest
               (transcriptions @ [chunk_transcription]) (self1\<lparr>current_backend := b\<rparr>))"

text \<open>Step 2 of the workflow: the \<^verbatim>\<open>hasattr\<close> test and its two branches.\<close>

definition transcribe_step ::
  "audio_processor \<Rightarrow> 's backend_methods \<Rightarrow> string list \<Rightarrow> 's main_window
     \<Rightarrow> (exn + string) \<times> 's main_window" where
  "transcribe_step ap methods chunk_files self =
     (case transcribe_chunks_m methods of
        Some backend_transcribe_chunks \<Rightarrow>
          (let self1 = root_after (UpdateStatus (TranscribingChunks (length chunk_files))) self
           in case backend_transcribe_chunks chunk_files (current_backend self1) of
                (r, b) \<Rightarrow> (r, self1\<lparr>current_backend := b\<rparr>))
      | None \<Rightarrow>
          (case fallback_chunk_loop (transcribe_m methods) 0 (length chunk_files)
                  chunk_files [] self of
             (Inl e, self1) \<Rightarrow> (Inl e, self1)
           | (Inr transcriptions, self1) \<Rightarrow>
               (Inr (ap_combine_transcriptions ap transcriptions),
                root_after (UpdateStatus CombiningTranscriptions) self1)))"

text \<open>
  The \<^verbatim>\<open>try\<close> block shared, word for word, by \<^verbatim>\<open>_transcribe_large_audio\<close> and
  \<^verbatim>\<open>_transcribe_large_audio_from_file\<close>: it ends normally, with the completion callback
  queued, or with an exception.
\<close>

definition large_audio_try ::
  "audio_processor \<Rightarrow> 's backend_methods \<Rightarrow> string \<Rightarrow> 's main_window
     \<Rightarrow> (exn + unit) \<times> 's main_window" where
  "large_audio_try ap methods audio_file self =
     (let self1 = root_after (UpdateStatus ProcessingLargeAudioFile) self
      in case ap_split_audio_file ap audio_file of
           (progress, outcome) \<Rightarrow>
             (let self2 = foldl (\<lambda>w message. root_after (UpdateStatus (SplitProgress message)) w)
                            self1 progress
              in case outcome of
                   Inl e \<Rightarrow> (Inl e, self2)
                 | Inr chunk_files \<Rightarrow>
                     if chunk_files = [] then
                       (Inl (Exception ''Failed to split audio file into chunks''), self2)
                     else (case transcribe_step ap methods chunk_files self2 of
                             (Inl e, self3) \<Rightarrow> (Inl e, self3)
                           | (Inr transcribed_text, self3) \<Rightarrow>
                               (Inr (), root_after (OnTranscriptionComplete transcribed_text) self3))))"

text \<open>The \<^verbatim>\<open>except Exception as e\<close> clause of the workers.\<close>

definition except_clause :: "(exn + unit) \<times> 's main_window \<Rightarrow> 's main_window" where
  "except_clause outcome =
     (case outcome of
        (Inl e, self) \<Rightarrow> root_after (OnTranscriptionError (str_of e)) self
      | (Inr u, self) \<Rightarrow> self)"

text \<open>The \<^verbatim>\<open>finally\<close> clause: the cleanup, and a warning when the cleanup raises.\<close>

definition finally_clause :: "audio_processor \<Rightarrow> 's main_window \<Rightarrow> 's main_window" where
  "finally_clause ap self =
     (let self1 = self\<lparr>cleanup_calls := cleanup_calls self + 1\<rparr>
      in case ap_cleanup_temp_files ap of
           None \<Rightarrow> self1
         | Some cleanup_error \<Rightarrow>
             self1\<lparr>warnings := warnings self1 @
                      [''Failed to cleanup temp files: '' @ str_of cleanup_error]\<rparr>)"

text \<open>
  \<^verbatim>\<open>_transcribe_large_audio_from_file(audio_file)\<close>, and \<^verbatim>\<open>_transcribe_large_audio()\<close>, which
  works on \<^verbatim>\<open>config.RECORDED_AUDIO_FILE\<close> (a parameter, as \<^verbatim>\<open>config\<close> is not part of the
  sources).
\<close>

definition transcribe_large_audio_from_file ::
  "audio_processor \<Rightarrow> 's backend_methods \<Rightarrow> string \<Rightarrow> 's main_window \<Rightarrow> 's main_window" where
  "transcribe_large_audio_from_file ap methods audio_file self =
     finally_clause ap (except_clause (large_audio_try ap methods audio_file self))"

definition transcribe_large_audio ::
  "string \<Rightarrow> audio_processor \<Rightarrow> 's backend_methods \<Rightarrow> 's main_window \<Rightarrow> 's main_window" where
  "transcribe_large_audio RECORDED_AUDIO_FILE ap methods self =
     finally_clause ap (except_clause (large_audio_try ap methods RECORDED_AUDIO_FILE self))"

text \<open>
  \<^verbatim>\<open>_transcribe_audio_from_file(audio_file)\<close>, the worker for a file that needs no
  splitting; \<^verbatim>\<open>_transcribe_audio()\<close> is the same on \<^verbatim>\<open>config.RECORDED_AUDIO_FILE\<close>. The
  status is set from the worker itself; it is recorded in the same queue.
\<close>

definition transcribe_audio_from_file ::
  "'s backend_methods \<Rightarrow> string \<Rightarrow> 's main_window \<Rightarrow> 's main_window" where
  "transcribe_audio_from_file methods audio_file self =
     (let self1 = root_after (UpdateStatus Transcribing) self
      in case transcribe_m methods audio_file (current_backend self1) of
           (Inl e, b) \<Rightarrow> root_after (OnTranscriptionError (str_of e)) (self1\<lparr>current_backend := b\<rparr>)
         | (Inr transcribed_text, b) \<Rightarrow>
             root_after (OnTranscriptionComplete transcribed_text) (self1\<lparr>current_backend := b\<rparr>))"

text \<open>
  The callbacks that only the fallback branch queues: the per-chunk progress and the
  ``combining'' status.
\<close>

fun fallback_status :: "callback \<Rightarrow> bool" where
  "fallback_status (UpdateStatus (TranscribingChunk current_chunk total_chunks)) = True"
| "fallback_status (UpdateStatus CombiningTranscriptions) = True"
| "fallback_status cb = False"

section \<open>Concrete objects for the examples\<close>

text \<open>
  \<^verbatim>\<open>str.lower\<close> on strings of ASCII characters, where it folds \<^verbatim>\<open>A\<close> to \<^verbatim>\<open>Z\<close> and leaves
  every other character alone; the examples apply it to such strings only.
  Two \<^verbatim>\<open>transcribe\<close> methods of backends that never look at the cancellation flag: one
  returns the file name, the other does so while the user cancels during the call.
  A backend built with a key and a working client constructor, and one built without a
  key, which is not available; a service that answers
  every request with the file name padded with blanks, and during whose \<open>k\<close>-th request
  the user cancels; a join with single blanks in the place of \<^verbatim>\<open>combine_transcriptions\<close>;
  an audio processor that splits every file into two chunks; a freshly started window.
\<close>

definition ascii_lower :: "string \<Rightarrow> string" where
  "ascii_lower s =
     map (\<lambda>c. case map_of (zip ''ABCDEFGHIJKLMNOPQRSTUVWXYZ'' ''abcdefghijklmnopqrstuvwxyz'') c of
                 Some l \<Rightarrow> l
               | None \<Rightarrow> c) s"

definition echo_transcribe :: "'a backend_scheme transcribe_method" where
  "echo_transcribe audio_file_path self = (Inr audio_file_path, self)"

definition cancelled_while_transcribing :: "'a backend_scheme transcribe_method" where
  "cancelled_while_transcribing audio_file_path self =
     (Inr audio_file_path, cancel_transcription self)"

definition example_backend :: openai_backend where
  "example_backend =
     openai_backend_init (\<lambda>k. Some (OpenAI k)) None ''api_whisper'' (Some ''sk-test'')"

definition example_backend_without_key :: openai_backend where
  "example_backend_without_key =
     openai_backend_init (\<lambda>k. Some (OpenAI k)) None ''api_whisper'' None"

definition cancel_during_request :: "nat \<Rightarrow> api" where
  "cancel_during_request k n m f =
     \<lparr> reply_result = Inr ('' '' @ f @ '' ''), cancel_during = (n = k) \<rparr>"

fun join_with_space :: "string list \<Rightarrow> string" where
  "join_with_space [] = []"
| "join_with_space [t] = t"
| "join_with_space (t # ts) = t @ '' '' @ join_with_space ts"

definition example_audio_processor :: audio_processor where
  "example_audio_processor =
     \<lparr> ap_split_audio_file = (\<lambda>f. ([''Splitting''], Inr [''c1.wav'', ''c2.wav''])),
       ap_combine_transcriptions = join_with_space,
       ap_cleanup_temp_files = None \<rparr>"

definition example_window :: "openai_backend main_window" where
  "example_window =
     \<lparr> current_backend = example_backend, scheduled = [], cleanup_calls = 0, warnings = [] \<rparr>"

section \<open>Properties of the hotkey manager\<close>

lemma held_generic:
  "(if m = a \<and> \<not> pa then False
    else if m = b \<and> \<not> pb then False
    else if m = c \<and> \<not> pc then False
    else if m = d \<and> \<not> pd then False
    else ((a \<in> S \<longrightarrow> pa) \<and> (b \<in> S \<longrightarrow> pb) \<and> (c \<in> S \<longrightarrow> pc) \<and> (d \<in> S \<longrightarrow> pd)))
   \<longleftrightarrow> ((a \<in> insert m S \<longrightarrow> pa) \<and> (b \<in> insert m S \<longrightarrow> pb) \<and>
        (c \<in> insert m S \<longrightarrow> pc) \<and> (d \<in> insert m S \<longrightarrow> pd))"
  by auto

lemma required_modifiers_held_conj:
  "required_modifiers_held p ms \<longleftrightarrow>
     ((''ctrl'' \<in> set ms \<longrightarrow> p ''ctrl'') \<and> (''alt'' \<in> set ms \<longrightarrow> p ''alt'') \<and>
      (''shift'' \<in> set ms \<longrightarrow> p ''shift'') \<and> (''win'' \<in> set ms \<longrightarrow> p ''win''))"
proof (induction ms)
  case Nil
  show ?case by (simp only: required_modifiers_held.simps list.set empty_iff) blast
next
  case (Cons m ms)
  show ?case
    unfolding required_modifiers_held.simps Cons.IH list.set
    by (rule held_generic)
qed

lemma exact_modifiers:
  "(((a \<in> M \<longrightarrow> p a) \<and> (b \<in> M \<longrightarrow> p b) \<and> (c \<in> M \<longrightarrow> p c) \<and> (d \<in> M \<longrightarrow> p d)) \<and>
    \<not> (a \<notin> M \<and> p a) \<and> \<not> (b \<notin> M \<and> p b) \<and> \<not> (c \<notin> M \<and> p c) \<and> \<not> (d \<notin> M \<and> p d))
   \<longleftrightarrow> (\<forall>m \<in> {a, b, c, d}. p m = (m \<in> M))"
  by blast

lemma matches_hotkey_Some:
  assumes "hotkey_string \<noteq> []" and "name event = Some event_name"
  shows "matches_hotkey str_lower is_pressed event hotkey_string = Inr True \<longleftrightarrow>
     str_lower event_name = last (str_split (CHR ''+'') (str_lower hotkey_string)) \<and>
     (required_modifiers_held is_pressed
        (butlast (str_split (CHR ''+'') (str_lower hotkey_string))) \<and>
      \<not> (''ctrl'' \<notin> set (butlast (str_split (CHR ''+'') (str_lower hotkey_string))) \<and>
         is_pressed ''ctrl'') \<and>
      \<not> (''alt'' \<notin> set (butlast (str_split (CHR ''+'') (str_lower hotkey_string))) \<and>
         is_pressed ''alt'') \<and>
      \<not> (''shift'' \<notin> set (butlast (str_split (CHR ''+'') (str_lower hotkey_string))) \<and>
         is_pressed ''shift'') \<and>
      \<not> (''win'' \<notin> set (butlast (str_split (CHR ''+'') (str_lower hotkey_string))) \<and>
         is_pressed ''win''))"
  using assms unfolding matches_hotkey_def Let_def
  by (simp only: if_False option.case sum.inject split: if_split) blast

lemma matches_hotkey_None:
  "name event = None \<Longrightarrow> matches_hotkey str_lower is_pressed event hotkey_string \<noteq> Inr True"
  unfolding matches_hotkey_def Let_def
  by (simp only: option.case split: if_split) simp

lemma matches_hotkey_empty: "matches_hotkey str_lower is_pressed event [] = Inr False"
  unfolding matches_hotkey_def by (simp only: simp_thms if_True)

text \<open>
  Claim C1. For a non-empty hotkey string, \<^verbatim>\<open>_matches_hotkey\<close> returns \<^verbatim>\<open>True\<close> exactly
  when the event has a name whose lower-cased form is the last \<^verbatim>\<open>+\<close>-separated token of
  the lower-cased string, and each of \<^verbatim>\<open>ctrl\<close>, \<^verbatim>\<open>alt\<close>, \<^verbatim>\<open>shift\<close>, \<^verbatim>\<open>win\<close> is held exactly
  when it is among the tokens before the last one. For the empty string it returns
  \<^verbatim>\<open>False\<close> for every event and every keyboard state. The theorem holds for every
  function in the place of \<^verbatim>\<open>str.lower\<close>, so for the one of Python on all of Unicode.
\<close>

theorem matches_hotkey_iff:
  "(hotkey_string \<noteq> [] \<longrightarrow>
      (matches_hotkey str_lower is_pressed event hotkey_string = Inr True \<longleftrightarrow>
         (\<exists>event_name. name event = Some event_name \<and>
            str_lower event_name = last (str_split (CHR ''+'') (str_lower hotkey_string))) \<and>
         (\<forall>m \<in> {''ctrl'', ''alt'', ''shift'', ''win''}.
            is_pressed m =
              (m \<in> set (butlast (str_split (CHR ''+'') (str_lower hotkey_string)))))))
   \<and> matches_hotkey str_lower is_pressed event [] = Inr False"
proof (intro conjI impI)
  let ?parts = "str_split (CHR ''+'') (str_lower hotkey_string)"
  assume ne: "hotkey_string \<noteq> []"
  show "matches_hotkey str_lower is_pressed event hotkey_string = Inr True \<longleftrightarrow>
         (\<exists>event_name. name event = Some event_name \<and> str_lower event_name = last ?parts) \<and>
         (\<forall>m \<in> {''ctrl'', ''alt'', ''shift'', ''win''}.
            is_pressed m = (m \<in> set (butlast ?parts)))"
  proof (cases "name event")
    case None
    from matches_hotkey_None [OF None] None show ?thesis by simp
  next
    case (Some event_name)
    show ?thesis
      unfolding matches_hotkey_Some [OF ne Some] required_modifiers_held_conj exact_modifiers
      using Some by simp
  qed
next
  show "matches_hotkey str_lower is_pressed event [] = Inr False"
    by (rule matches_hotkey_empty)
qed

text \<open>
  The theorem at \<^verbatim>\<open>"Ctrl+Alt+r"\<close> and the key \<^verbatim>\<open>R\<close>: a match with exactly ctrl and alt held,
  no match when shift is held as well.
\<close>

theorem matches_hotkey_iff_witness:
  "''Ctrl+Alt+r'' \<noteq> [] \<and>
   matches_hotkey ascii_lower (\<lambda>k. k = ''ctrl'' \<or> k = ''alt'')
     \<lparr>event_type = ''down'', name = Some ''R''\<rparr> ''Ctrl+Alt+r'' = Inr True \<and>
   matches_hotkey ascii_lower (\<lambda>k. k = ''ctrl'' \<or> k = ''alt'' \<or> k = ''shift'')
     \<lparr>event_type = ''down'', name = Some ''R''\<rparr> ''Ctrl+Alt+r'' \<noteq> Inr True"
  using matches_hotkey_iff [of "''Ctrl+Alt+r''" ascii_lower "\<lambda>k. k = ''ctrl'' \<or> k = ''alt''"
      "\<lparr>event_type = ''down'', name = Some ''R''\<rparr>"]
    matches_hotkey_iff [of "''Ctrl+Alt+r''" ascii_lower
      "\<lambda>k. k = ''ctrl'' \<or> k = ''alt'' \<or> k = ''shift''"
      "\<lparr>event_type = ''down'', name = Some ''R''\<rparr>"]
  by (simp add: ascii_lower_def)

subsection \<open>Debounce of the record toggle\<close>

text \<open>
  Claim C7, as the code has it. When the trigger at time \<open>t\<close> was accepted, so that it is
  the stored last trigger, a trigger at \<open>t'\<close> is accepted, and stored, exactly when the
  elapsed time \<open>t' - t\<close> is strictly greater than the debounce interval; otherwise it is
  rejected and the stored time stays \<open>t\<close>. A trigger whose elapsed time equals the interval
  is rejected.
\<close>

theorem debounce_guard:
  assumes "should_trigger_record_toggle HOTKEY_DEBOUNCE_MS t self0 = (True, self1)"
  shows "last_trigger_time self1 = t \<and>
         should_trigger_record_toggle HOTKEY_DEBOUNCE_MS t' self1 =
           (if t' - t > HOTKEY_DEBOUNCE_MS / 1000
            then (True, self1\<lparr>last_trigger_time := t'\<rparr>)
            else (False, self1))"
proof -
  from assms have s1: "self1 = self0\<lparr>last_trigger_time := t\<rparr>"
    by (simp add: should_trigger_record_toggle_def split: if_splits)
  then have "last_trigger_time self1 = t" by simp
  then show ?thesis by (simp add: should_trigger_record_toggle_def)
qed

text \<open>
  With a 500 ms interval and a first trigger at 10 s: a second trigger at 10.2 s is
  rejected, one at 11 s is accepted.
\<close>

theorem debounce_guard_witness:
  "should_trigger_record_toggle 500 10 hotkey_manager_init =
     (True, hotkey_manager_init\<lparr>last_trigger_time := 10\<rparr>) \<and>
   should_trigger_record_toggle 500 (51 / 5) (hotkey_manager_init\<lparr>last_trigger_time := 10\<rparr>) =
     (False, hotkey_manager_init\<lparr>last_trigger_time := 10\<rparr>) \<and>
   should_trigger_record_toggle 500 11 (hotkey_manager_init\<lparr>last_trigger_time := 10\<rparr>) =
     (True, hotkey_manager_init\<lparr>last_trigger_time := 11\<rparr>)"
proof -
  have h: "should_trigger_record_toggle 500 10 hotkey_manager_init =
     (True, hotkey_manager_init\<lparr>last_trigger_time := 10\<rparr>)"
    by (simp add: should_trigger_record_toggle_def hotkey_manager_init_def)
  from debounce_guard [OF h, of "51 / 5"] debounce_guard [OF h, of 11] h
  show ?thesis by simp
qed

text \<open>
  The boundary: last trigger at 1 s, next trigger at 1.5 s, interval 500 ms. The elapsed
  time is not below the interval, and the trigger is rejected all the same.
\<close>

theorem debounce_boundary_counterexample:
  "\<not> ((3 / 2 :: rat) - 1 < 500 / 1000) \<and>
   should_trigger_record_toggle 500 (3 / 2) \<lparr>program_enabled = True, last_trigger_time = 1\<rparr> =
     (False, \<lparr>program_enabled = True, last_trigger_time = 1\<rparr>)"
  by (simp add: should_trigger_record_toggle_def)

section \<open>Properties of the OpenAI backend\<close>

lemma api_request_result:
  "fst (api_request api m f s) = reply_result (api (length (api_log s)) m f)"
  by (simp add: api_request_def Let_def)

lemma api_request_log:
  "api_log (snd (api_request api m f s)) =
     api_log s @ [\<lparr>call_model = m, call_file = f, call_transcribing = is_transcribing s\<rparr>]"
  by (simp add: api_request_def Let_def cancel_transcription_def)

lemma api_request_should_cancel:
  "should_cancel (snd (api_request api m f s)) \<longleftrightarrow>
     should_cancel s \<or> cancel_during (api (length (api_log s)) m f)"
  by (simp add: api_request_def Let_def cancel_transcription_def)

lemma api_request_frame:
  "is_transcribing (snd (api_request api m f s)) = is_transcribing s"
  "model_type (snd (api_request api m f s)) = model_type s"
  "api_key (snd (api_request api m f s)) = api_key s"
  "client (snd (api_request api m f s)) = client s"
  by (simp_all add: api_request_def Let_def cancel_transcription_def)

lemma transcribe_try_cases:
  "fst (transcribe_try api p s) =
     (case reply_result (api (length (api_log s)) (get_api_model_name s) p) of
        Inl e \<Rightarrow> Inl e
      | Inr resp \<Rightarrow>
          if cancel_during (api (length (api_log s)) (get_api_model_name s) p)
          then Inl (Exception ''Transcription cancelled'')
          else Inr (strip resp))"
proof -
  let ?s1 = "reset_cancel_flag (s\<lparr>is_transcribing := True\<rparr>)"
  have m: "get_api_model_name ?s1 = get_api_model_name s"
    by (simp add: get_api_model_name_def reset_cancel_flag_def)
  have l: "api_log ?s1 = api_log s" by (simp add: reset_cancel_flag_def)
  have c: "\<not> should_cancel ?s1" by (simp add: reset_cancel_flag_def)
  obtain r s2 where rq: "api_request api (get_api_model_name s) p ?s1 = (r, s2)"
    by (cases "api_request api (get_api_model_name s) p ?s1")
  from rq api_request_result [of api "get_api_model_name s" p ?s1]
  have r: "r = reply_result (api (length (api_log s)) (get_api_model_name s) p)"
    by (simp add: l)
  from rq api_request_should_cancel [of api "get_api_model_name s" p ?s1] c
  have sc: "should_cancel s2 = cancel_during (api (length (api_log s)) (get_api_model_name s) p)"
    by (simp add: l)
  show ?thesis
    unfolding transcribe_try_def Let_def m rq
    by (cases r) (simp_all add: r [symmetric] sc)
qed

lemma openai_transcribe_unavailable:
  "\<not> is_available self \<Longrightarrow> openai_transcribe api p self = (Inl not_available, self)"
  by (simp add: openai_transcribe_def)

lemma openai_transcribe_available:
  "is_available self \<Longrightarrow>
     fst (openai_transcribe api p self) = fst (transcribe_try api p self)"
  by (simp add: openai_transcribe_def split: prod.splits)

text \<open>
  Claim C8. \<^verbatim>\<open>OpenAIBackend.transcribe\<close> raises exactly when the backend is not available,
  or the request raises, or the cancellation flag is found set after the request (the
  flag is cleared just before the request, so it is set then exactly when a cancellation
  arrived while the request was in flight). When the backend is not available the object
  is left as it was, with no request logged. Otherwise the result is the stripped
  response. The cancelled condition is \<^verbatim>\<open>Exception("Transcription cancelled")\<close>.
\<close>

theorem transcribe_raises_exactly_when:
  "(\<not> is_available self \<longrightarrow>
      openai_transcribe api audio_file_path self = (Inl not_available, self)) \<and>
   (is_available self \<longrightarrow>
      fst (openai_transcribe api audio_file_path self) =
        (case reply_result (api (length (api_log self)) (get_api_model_name self) audio_file_path) of
           Inl e \<Rightarrow> Inl e
         | Inr resp \<Rightarrow>
             if cancel_during (api (length (api_log self)) (get_api_model_name self) audio_file_path)
             then Inl (Exception ''Transcription cancelled'')
             else Inr (strip resp))) \<and>
   (isl (fst (openai_transcribe api audio_file_path self)) \<longleftrightarrow>
      \<not> is_available self \<or>
      isl (reply_result (api (length (api_log self)) (get_api_model_name self) audio_file_path)) \<or>
      cancel_during (api (length (api_log self)) (get_api_model_name self) audio_file_path))"
proof (cases "is_available self")
  case False
  then show ?thesis by (simp add: openai_transcribe_unavailable)
next
  case True
  then show ?thesis
    by (simp add: openai_transcribe_available transcribe_try_cases split: sum.splits)
qed

lemma example_backend_simps:
  "is_available example_backend"
  "get_api_model_name example_backend = ''whisper-1''"
  "api_log example_backend = []"
  "\<not> is_transcribing example_backend"
  "\<not> should_cancel example_backend"
  by (simp_all add: example_backend_def openai_backend_init_def initialize_client_def
      is_available_def get_api_model_name_def)

lemma strip_padded:
  "strip '' c1.wav '' = ''c1.wav''" "strip '' c2.wav '' = ''c2.wav''"
  "strip '' c3.wav '' = ''c3.wav''"
  by (simp_all add: strip_def is_space_def)

lemma example_quiet_run:
  "openai_transcribe_chunks join_with_space (cancel_during_request 2)
     [''c1.wav'', ''c2.wav''] example_backend =
   (Inr ''c1.wav c2.wav'',
    example_backend\<lparr>
      api_log := [\<lparr>call_model = ''whisper-1'', call_file = ''c1.wav'', call_transcribing = True\<rparr>,
                  \<lparr>call_model = ''whisper-1'', call_file = ''c2.wav'', call_transcribing = True\<rparr>]\<rparr>)"
  by (simp add: openai_transcribe_chunks_def transcribe_chunks_try_def Let_def
      reset_cancel_flag_def api_request_def cancel_during_request_def cancel_transcription_def
      get_api_model_name_def is_available_def example_backend_def openai_backend_init_def
      initialize_client_def strip_padded)

lemma example_default_run:
  "transcribe_chunks join_with_space (openai_transcribe (cancel_during_request 2))
     [''c1.wav'', ''c2.wav''] example_backend =
   (Inr ''c1.wav c2.wav'',
    example_backend\<lparr>
      api_log := [\<lparr>call_model = ''whisper-1'', call_file = ''c1.wav'', call_transcribing = True\<rparr>,
                  \<lparr>call_model = ''whisper-1'', call_file = ''c2.wav'', call_transcribing = True\<rparr>]\<rparr>)"
  by (simp add: transcribe_chunks_def openai_transcribe_def transcribe_try_def Let_def
      reset_cancel_flag_def api_request_def cancel_during_request_def cancel_transcription_def
      get_api_model_name_def is_available_def example_backend_def openai_backend_init_def
      initialize_client_def strip_padded)

text \<open>
  The theorem on a backend with a key: a padded response is returned stripped; a
  cancellation during the request raises the cancelled condition. Without a key the
  backend is not available and the call raises.
\<close>

theorem transcribe_raises_exactly_when_witness:
  "is_available (openai_backend_init (\<lambda>k. Some (OpenAI k)) None ''api_whisper'' (Some ''sk-test'')) \<and>
   fst (openai_transcribe (\<lambda>n m f. \<lparr>reply_result = Inr '' hello '', cancel_during = False\<rparr>) ''a.wav''
     (openai_backend_init (\<lambda>k. Some (OpenAI k)) None ''api_whisper'' (Some ''sk-test''))) = Inr ''hello'' \<and>
   fst (openai_transcribe (\<lambda>n m f. \<lparr>reply_result = Inr '' hello '', cancel_during = True\<rparr>) ''a.wav''
     (openai_backend_init (\<lambda>k. Some (OpenAI k)) None ''api_whisper'' (Some ''sk-test''))) =
     Inl (Exception ''Transcription cancelled'') \<and>
   \<not> is_available (openai_backend_init (\<lambda>k. Some (OpenAI k)) None ''api_whisper'' None) \<and>
   fst (openai_transcribe (\<lambda>n m f. \<lparr>reply_result = Inr '' hello '', cancel_during = False\<rparr>) ''a.wav''
     (openai_backend_init (\<lambda>k. Some (OpenAI k)) None ''api_whisper'' None)) = Inl not_available"
proof -
  let ?b = "openai_backend_init (\<lambda>k. Some (OpenAI k)) None ''api_whisper'' (Some ''sk-test'')"
  let ?u = "openai_backend_init (\<lambda>k. Some (OpenAI k)) None ''api_whisper'' None"
  have a: "is_available ?b"
    by (simp add: openai_backend_init_def initialize_client_def is_available_def)
  have u: "\<not> is_available ?u"
    by (simp add: openai_backend_init_def initialize_client_def is_available_def)
  have st: "strip '' hello '' = ''hello''"
    by (simp add: strip_def is_space_def)
  from a u st
    transcribe_raises_exactly_when
      [of ?b "\<lambda>n m f. \<lparr>reply_result = Inr '' hello '', cancel_during = False\<rparr>" "''a.wav''"]
    transcribe_raises_exactly_when
      [of ?b "\<lambda>n m f. \<lparr>reply_result = Inr '' hello '', cancel_during = True\<rparr>" "''a.wav''"]
    transcribe_raises_exactly_when
      [of ?u "\<lambda>n m f. \<lparr>reply_result = Inr '' hello '', cancel_during = False\<rparr>" "''a.wav''"]
  show ?thesis by simp
qed

lemma api_requestD:
  assumes "api_request api m f s = (r, s1)"
  shows "r = reply_result (api (length (api_log s)) m f)"
    and "api_log s1 = api_log s @ [\<lparr>call_model = m, call_file = f, call_transcribing = is_transcribing s\<rparr>]"
    and "should_cancel s1 \<longleftrightarrow> should_cancel s \<or> cancel_during (api (length (api_log s)) m f)"
    and "is_transcribing s1 = is_transcribing s"
    and "model_type s1 = model_type s"
    and "api_key s1 = api_key s"
    and "client s1 = client s"
  using assms api_request_result [of api m f s] api_request_log [of api m f s]
    api_request_should_cancel [of api m f s] api_request_frame [of api m f s]
  by simp_all

lemma openai_chunk_loop_frame:
  "openai_chunk_loop api m cs acc s = (r, s') \<Longrightarrow>
     is_transcribing s' = is_transcribing s \<and> model_type s' = model_type s \<and>
     api_key s' = api_key s \<and> client s' = client s"
proof (induction cs arbitrary: acc s)
  case Nil
  then show ?case by simp
next
  case (Cons c cs)
  show ?case
  proof (cases "should_cancel s")
    case True
    with Cons.prems show ?thesis by simp
  next
    case False
    obtain r1 s1 where rq: "api_request api m c s = (r1, s1)"
      by (cases "api_request api m c s")
    note d = api_requestD [OF rq]
    show ?thesis
    proof (cases r1)
      case (Inl e)
      with Cons.prems False rq have "s' = s1" by simp
      with d show ?thesis by simp
    next
      case (Inr resp)
      with Cons.prems False rq
      have "openai_chunk_loop api m cs (acc @ [strip resp]) s1 = (r, s')" by simp
      from Cons.IH [OF this] d show ?thesis by simp
    qed
  qed
qed

lemma openai_chunk_loop_log:
  "openai_chunk_loop api m cs acc s = (r, s') \<Longrightarrow>
     \<exists>k \<le> length cs.
       api_log s' = api_log s @
         map (\<lambda>f. \<lparr>call_model = m, call_file = f, call_transcribing = is_transcribing s\<rparr>) (take k cs)"
proof (induction cs arbitrary: acc s)
  case Nil
  then show ?case by simp
next
  case (Cons c cs)
  show ?case
  proof (cases "should_cancel s")
    case True
    with Cons.prems have "s' = s" by simp
    then have "api_log s' = api_log s @
         map (\<lambda>f. \<lparr>call_model = m, call_file = f, call_transcribing = is_transcribing s\<rparr>) (take 0 (c # cs))"
      by simp
    then show ?thesis by blast
  next
    case False
    obtain r1 s1 where rq: "api_request api m c s = (r1, s1)"
      by (cases "api_request api m c s")
    note d = api_requestD [OF rq]
    show ?thesis
    proof (cases r1)
      case (Inl e)
      with Cons.prems False rq have "s' = s1" by simp
      with d have "api_log s' = api_log s @
         map (\<lambda>f. \<lparr>call_model = m, call_file = f, call_transcribing = is_transcribing s\<rparr>) (take 1 (c # cs))"
        by simp
      moreover have "(1::nat) \<le> length (c # cs)" by simp
      ultimately show ?thesis by blast
    next
      case (Inr resp)
      with Cons.prems False rq
      have "openai_chunk_loop api m cs (acc @ [strip resp]) s1 = (r, s')" by simp
      from Cons.IH [OF this] obtain k where k: "k \<le> length cs"
        "api_log s' = api_log s1 @
           map (\<lambda>f. \<lparr>call_model = m, call_file = f, call_transcribing = is_transcribing s1\<rparr>) (take k cs)"
        by blast
      with d have "api_log s' = api_log s @
         map (\<lambda>f. \<lparr>call_model = m, call_file = f, call_transcribing = is_transcribing s\<rparr>) (take (Suc k) (c # cs))"
        by simp
      moreover from k have "Suc k \<le> length (c # cs)" by simp
      ultimately show ?thesis by blast
    qed
  qed
qed

lemma between_calls_idle: "between_calls self \<Longrightarrow> \<not> is_transcribing self"
proof (induction rule: between_calls.induct)
  case (constructed make_client env_api_key mt key)
  show ?case
    by (simp add: openai_backend_init_def initialize_client_def split: option.splits)
next
  case (after_transcribe self api audio_file_path)
  then show ?case
    by (simp add: openai_transcribe_def split: prod.splits)
next
  case (after_transcribe_chunks self combine_transcriptions api chunk_files)
  then show ?case
    by (simp add: openai_transcribe_chunks_def split: prod.splits)
next
  case (after_cancel_transcription self)
  then show ?case by (simp add: cancel_transcription_def)
next
  case (after_reset_cancel_flag self)
  then show ?case by (simp add: reset_cancel_flag_def)
next
  case (after_update_api_key self make_client new_key)
  then show ?case
    by (simp add: update_api_key_def initialize_client_def split: option.splits)
next
  case (after_change_model_type self new_type)
  then show ?case by (simp add: change_model_type_def)
qed

lemma transcribe_try_log:
  "api_log (snd (transcribe_try api p s)) =
     api_log s @ [\<lparr>call_model = get_api_model_name s, call_file = p, call_transcribing = True\<rparr>]"
proof -
  let ?s1 = "reset_cancel_flag (s\<lparr>is_transcribing := True\<rparr>)"
  have m: "get_api_model_name ?s1 = get_api_model_name s"
    by (simp add: get_api_model_name_def reset_cancel_flag_def)
  obtain r s2 where rq: "api_request api (get_api_model_name s) p ?s1 = (r, s2)"
    by (cases "api_request api (get_api_model_name s) p ?s1")
  from api_requestD(2) [OF rq]
  have "api_log s2 = api_log s @
     [\<lparr>call_model = get_api_model_name s, call_file = p, call_transcribing = True\<rparr>]"
    by (simp add: reset_cancel_flag_def)
  then show ?thesis
    unfolding transcribe_try_def Let_def m rq
    by (cases r) simp_all
qed

lemma transcribe_in_two_halves:
  "openai_transcribe api p self =
     (case transcribe_enter self of
        Inl e \<Rightarrow> (Inl e, self)
      | Inr entered \<Rightarrow>
          transcribe_leave (api_request api (get_api_model_name entered) p entered))"
proof (cases "is_available self")
  case False
  then show ?thesis by (simp add: openai_transcribe_def transcribe_enter_def)
next
  case True
  let ?s1 = "reset_cancel_flag (self\<lparr>is_transcribing := True\<rparr>)"
  obtain r s2 where rq: "api_request api (get_api_model_name ?s1) p ?s1 = (r, s2)"
    by (cases "api_request api (get_api_model_name ?s1) p ?s1")
  from True rq show ?thesis
    by (cases r)
      (simp_all add: openai_transcribe_def transcribe_enter_def transcribe_try_def
        transcribe_leave_def Let_def)
qed

lemma transcribe_try_flag: "is_transcribing (snd (transcribe_try api p s))"
proof -
  let ?s1 = "reset_cancel_flag (s\<lparr>is_transcribing := True\<rparr>)"
  obtain r s2 where rq: "api_request api (get_api_model_name ?s1) p ?s1 = (r, s2)"
    by (cases "api_request api (get_api_model_name ?s1) p ?s1")
  from api_requestD(4) [OF rq] have "is_transcribing s2" by (simp add: reset_cancel_flag_def)
  then show ?thesis
    unfolding transcribe_try_def Let_def rq by (cases r) simp_all
qed

lemma transcribe_chunks_try_flag: "is_transcribing (snd (transcribe_chunks_try combine api cs s))"
proof -
  let ?s1 = "reset_cancel_flag (s\<lparr>is_transcribing := True\<rparr>)"
  obtain r s2 where lp: "openai_chunk_loop api (get_api_model_name ?s1) cs [] ?s1 = (r, s2)"
    by (cases "openai_chunk_loop api (get_api_model_name ?s1) cs [] ?s1")
  from openai_chunk_loop_frame [OF lp] have "is_transcribing s2"
    by (simp add: reset_cancel_flag_def)
  then show ?thesis
    unfolding transcribe_chunks_try_def Let_def lp by (cases r) simp_all
qed

lemma openai_chunk_loop_log_first:
  assumes "openai_chunk_loop api m (c # cs) acc s = (r, s')" and "\<not> should_cancel s"
  shows "\<exists>k. 0 < k \<and> k \<le> length (c # cs) \<and>
       api_log s' = api_log s @
         map (\<lambda>f. \<lparr>call_model = m, call_file = f, call_transcribing = is_transcribing s\<rparr>)
           (take k (c # cs))"
proof -
  obtain r1 s1 where rq: "api_request api m c s = (r1, s1)"
    by (cases "api_request api m c s")
  note d = api_requestD [OF rq]
  show ?thesis
  proof (cases r1)
    case (Inl e)
    with assms rq have "s' = s1" by simp
    with d have "api_log s' = api_log s @
         map (\<lambda>f. \<lparr>call_model = m, call_file = f, call_transcribing = is_transcribing s\<rparr>)
           (take 1 (c # cs))"
      by simp
    moreover have "(0::nat) < 1 \<and> (1::nat) \<le> length (c # cs)" by simp
    ultimately show ?thesis by blast
  next
    case (Inr resp)
    with assms rq
    have "openai_chunk_loop api m cs (acc @ [strip resp]) s1 = (r, s')" by simp
    from openai_chunk_loop_log [OF this] obtain k where k: "k \<le> length cs"
      "api_log s' = api_log s1 @
         map (\<lambda>f. \<lparr>call_model = m, call_file = f, call_transcribing = is_transcribing s1\<rparr>)
           (take k cs)"
      by blast
    with d have "api_log s' = api_log s @
         map (\<lambda>f. \<lparr>call_model = m, call_file = f, call_transcribing = is_transcribing s\<rparr>)
           (take (Suc k) (c # cs))"
      by simp
    moreover from k have "0 < Suc k \<and> Suc k \<le> length (c # cs)" by simp
    ultimately show ?thesis by blast
  qed
qed

lemma transcribe_chunks_try_log_first:
  "\<exists>k \<le> length cs. (cs \<noteq> [] \<longrightarrow> 0 < k) \<and>
     api_log (snd (transcribe_chunks_try combine api cs s)) =
       api_log s @ map (\<lambda>f. \<lparr>call_model = get_api_model_name s, call_file = f,
                            call_transcribing = True\<rparr>) (take k cs)"
proof (cases cs)
  case Nil
  then show ?thesis by (simp add: transcribe_chunks_try_def Let_def reset_cancel_flag_def)
next
  case (Cons c rest)
  let ?s1 = "reset_cancel_flag (s\<lparr>is_transcribing := True\<rparr>)"
  have m: "get_api_model_name ?s1 = get_api_model_name s"
    by (simp add: get_api_model_name_def reset_cancel_flag_def)
  obtain r s2 where lp: "openai_chunk_loop api (get_api_model_name s) (c # rest) [] ?s1 = (r, s2)"
    by (cases "openai_chunk_loop api (get_api_model_name s) (c # rest) [] ?s1")
  have "\<not> should_cancel ?s1" by (simp add: reset_cancel_flag_def)
  from openai_chunk_loop_log_first [OF lp this] obtain k where k: "0 < k" "k \<le> length (c # rest)"
    "api_log s2 = api_log s @ map (\<lambda>f. \<lparr>call_model = get_api_model_name s, call_file = f,
                          call_transcribing = True\<rparr>) (take k (c # rest))"
    by (auto simp: reset_cancel_flag_def)
  have "snd (transcribe_chunks_try combine api cs s) = s2"
    unfolding transcribe_chunks_try_def Let_def m Cons lp
    by (cases r) simp_all
  with k Cons show ?thesis by blast
qed

text \<open>
  Claim C9, as the code has it. Let no call be in flight on the backend, so that
  \<^verbatim>\<open>is_transcribing\<close> is clear. On an available backend \<^verbatim>\<open>transcribe\<close> sets the flag before
  it sends its request, sends exactly one request, with the flag set, still has the flag
  set when its \<^verbatim>\<open>try\<close> block ends, and leaves it clear. \<^verbatim>\<open>transcribe_chunks\<close> has the flag
  set when its \<^verbatim>\<open>try\<close> block ends, sends every one of its requests with the flag set (at
  least one request when there is a chunk), and leaves the flag clear. On a backend that
  is not available both calls raise with the object untouched: the flag is never set.
\<close>

theorem is_transcribing_for_the_duration:
  assumes "between_calls self"
  shows "\<not> is_transcribing self \<and>
     (is_available self \<longrightarrow>
        (\<exists>entered. transcribe_enter self = Inr entered \<and> is_transcribing entered) \<and>
        is_transcribing (snd (transcribe_try api audio_file_path self)) \<and>
        api_log (snd (openai_transcribe api audio_file_path self)) =
          api_log self @ [\<lparr>call_model = get_api_model_name self, call_file = audio_file_path,
                            call_transcribing = True\<rparr>] \<and>
        \<not> is_transcribing (snd (openai_transcribe api audio_file_path self))) \<and>
     (is_available self \<longrightarrow>
        is_transcribing (snd (transcribe_chunks_try combine api chunk_files self)) \<and>
        (\<exists>k \<le> length chunk_files. (chunk_files \<noteq> [] \<longrightarrow> 0 < k) \<and>
           api_log (snd (openai_transcribe_chunks combine api chunk_files self)) =
             api_log self @ map (\<lambda>f. \<lparr>call_model = get_api_model_name self, call_file = f,
                                       call_transcribing = True\<rparr>) (take k chunk_files)) \<and>
        \<not> is_transcribing (snd (openai_transcribe_chunks combine api chunk_files self))) \<and>
     (\<not> is_available self \<longrightarrow>
        openai_transcribe api audio_file_path self = (Inl not_available, self) \<and>
        openai_transcribe_chunks combine api chunk_files self = (Inl not_available, self))"
proof (intro conjI impI)
  from assms show "\<not> is_transcribing self" by (rule between_calls_idle)
next
  assume a: "is_available self"
  then show "\<exists>entered. transcribe_enter self = Inr entered \<and> is_transcribing entered"
    by (simp add: transcribe_enter_def reset_cancel_flag_def)
  show "is_transcribing (snd (transcribe_try api audio_file_path self))"
    by (rule transcribe_try_flag)
  from a have "api_log (snd (openai_transcribe api audio_file_path self)) =
      api_log (snd (transcribe_try api audio_file_path self))"
    by (simp add: openai_transcribe_def split: prod.splits)
  then show "api_log (snd (openai_transcribe api audio_file_path self)) =
          api_log self @ [\<lparr>call_model = get_api_model_name self, call_file = audio_file_path,
                            call_transcribing = True\<rparr>]"
    by (simp add: transcribe_try_log)
  from a show "\<not> is_transcribing (snd (openai_transcribe api audio_file_path self))"
    by (simp add: openai_transcribe_def split: prod.splits)
next
  assume a: "is_available self"
  show "is_transcribing (snd (transcribe_chunks_try combine api chunk_files self))"
    by (rule transcribe_chunks_try_flag)
  from a have e: "api_log (snd (openai_transcribe_chunks combine api chunk_files self)) =
      api_log (snd (transcribe_chunks_try combine api chunk_files self))"
    by (simp add: openai_transcribe_chunks_def split: prod.splits)
  from transcribe_chunks_try_log_first [of chunk_files combine api self]
  show "\<exists>k \<le> length chunk_files. (chunk_files \<noteq> [] \<longrightarrow> 0 < k) \<and>
           api_log (snd (openai_transcribe_chunks combine api chunk_files self)) =
             api_log self @ map (\<lambda>f. \<lparr>call_model = get_api_model_name self, call_file = f,
                                       call_transcribing = True\<rparr>) (take k chunk_files)"
    unfolding e .
  from a show "\<not> is_transcribing (snd (openai_transcribe_chunks combine api chunk_files self))"
    by (simp add: openai_transcribe_chunks_def split: prod.splits)
next
  assume "\<not> is_available self"
  then show "openai_transcribe api audio_file_path self = (Inl not_available, self)"
    and "openai_transcribe_chunks combine api chunk_files self = (Inl not_available, self)"
    by (simp_all add: openai_transcribe_def openai_transcribe_chunks_def)
qed

text \<open>
  The theorem on the example backend: one request for \<^verbatim>\<open>transcribe\<close>, sent with the flag
  set; two requests for \<^verbatim>\<open>transcribe_chunks\<close> on two chunks, sent with the flag set; the
  flag is set at the end of both \<^verbatim>\<open>try\<close> blocks and clear after both calls.
\<close>

theorem is_transcribing_for_the_duration_witness:
  "between_calls example_backend \<and> is_available example_backend \<and>
   is_transcribing (snd (transcribe_try (cancel_during_request 0) ''c1.wav'' example_backend)) \<and>
   api_log (snd (openai_transcribe (cancel_during_request 0) ''c1.wav'' example_backend)) =
     [\<lparr>call_model = ''whisper-1'', call_file = ''c1.wav'', call_transcribing = True\<rparr>] \<and>
   \<not> is_transcribing (snd (openai_transcribe (cancel_during_request 0) ''c1.wav'' example_backend)) \<and>
   is_transcribing (snd (transcribe_chunks_try join_with_space (cancel_during_request 2)
        [''c1.wav'', ''c2.wav''] example_backend)) \<and>
   api_log (snd (openai_transcribe_chunks join_with_space (cancel_during_request 2)
        [''c1.wav'', ''c2.wav''] example_backend)) =
     [\<lparr>call_model = ''whisper-1'', call_file = ''c1.wav'', call_transcribing = True\<rparr>,
      \<lparr>call_model = ''whisper-1'', call_file = ''c2.wav'', call_transcribing = True\<rparr>] \<and>
   \<not> is_transcribing (snd (openai_transcribe_chunks join_with_space (cancel_during_request 2)
        [''c1.wav'', ''c2.wav''] example_backend))"
proof -
  have r: "between_calls example_backend"
    unfolding example_backend_def by (rule between_calls.constructed)
  have a: "is_available example_backend" by (rule example_backend_simps(1))
  have l2: "api_log (snd (openai_transcribe_chunks join_with_space (cancel_during_request 2)
        [''c1.wav'', ''c2.wav''] example_backend)) =
     [\<lparr>call_model = ''whisper-1'', call_file = ''c1.wav'', call_transcribing = True\<rparr>,
      \<lparr>call_model = ''whisper-1'', call_file = ''c2.wav'', call_transcribing = True\<rparr>]"
    by (simp add: example_quiet_run)
  from is_transcribing_for_the_duration [OF r, of "cancel_during_request 0" "''c1.wav''"] a
  have 1: "is_transcribing (snd (transcribe_try (cancel_during_request 0) ''c1.wav''
        example_backend))"
    and 2: "api_log (snd (openai_transcribe (cancel_during_request 0) ''c1.wav'' example_backend)) =
      api_log example_backend @ [\<lparr>call_model = get_api_model_name example_backend,
        call_file = ''c1.wav'', call_transcribing = True\<rparr>]"
    and 3: "\<not> is_transcribing (snd (openai_transcribe (cancel_during_request 0) ''c1.wav''
        example_backend))"
    by blast+
  from is_transcribing_for_the_duration [OF r, of "cancel_during_request 2" _ join_with_space
      "[''c1.wav'', ''c2.wav'']"] a
  have 4: "is_transcribing (snd (transcribe_chunks_try join_with_space (cancel_during_request 2)
        [''c1.wav'', ''c2.wav''] example_backend))"
    and 5: "\<not> is_transcribing (snd (openai_transcribe_chunks join_with_space
        (cancel_during_request 2) [''c1.wav'', ''c2.wav''] example_backend))"
    by blast+
  from r a 1 2 3 4 5 l2 show ?thesis
    by (simp add: example_backend_simps)
qed

text \<open>
  Two calls during which the flag is not set. On the backend without a key
  \<^verbatim>\<open>transcribe\<close> raises and the object, whose flag is clear, is untouched: the flag was
  set at no moment of the call. When two calls on the example backend overlap, the first call
  clears the flag as it leaves, and the request of the second call, still in its
  \<^verbatim>\<open>try\<close> block, is sent with the flag clear.
\<close>

theorem is_transcribing_not_set_counterexample:
  "openai_transcribe (cancel_during_request 2) ''c1.wav'' example_backend_without_key =
     (Inl not_available, example_backend_without_key) \<and>
   \<not> is_transcribing example_backend_without_key \<and>
   map_sum id api_log
     (overlapping_transcribes (cancel_during_request 2) ''c1.wav'' ''c2.wav'' example_backend) =
     Inr [\<lparr>call_model = ''whisper-1'', call_file = ''c1.wav'', call_transcribing = True\<rparr>,
          \<lparr>call_model = ''whisper-1'', call_file = ''c2.wav'', call_transcribing = False\<rparr>]"
proof (intro conjI)
  have u: "\<not> is_available example_backend_without_key"
    by (simp add: is_available_def example_backend_without_key_def openai_backend_init_def
        initialize_client_def)
  then show "openai_transcribe (cancel_during_request 2) ''c1.wav'' example_backend_without_key =
     (Inl not_available, example_backend_without_key)"
    by (simp add: openai_transcribe_def)
  show "\<not> is_transcribing example_backend_without_key"
    by (simp add: example_backend_without_key_def openai_backend_init_def initialize_client_def)
  show "map_sum id api_log
     (overlapping_transcribes (cancel_during_request 2) ''c1.wav'' ''c2.wav'' example_backend) =
     Inr [\<lparr>call_model = ''whisper-1'', call_file = ''c1.wav'', call_transcribing = True\<rparr>,
          \<lparr>call_model = ''whisper-1'', call_file = ''c2.wav'', call_transcribing = False\<rparr>]"
    by (simp add: overlapping_transcribes_def transcribe_enter_def transcribe_leave_def Let_def
        reset_cancel_flag_def api_request_def cancel_during_request_def cancel_transcription_def
        get_api_model_name_def is_available_def example_backend_def openai_backend_init_def
        initialize_client_def)
qed

section \<open>Properties of the chunk loops\<close>

lemma base_chunk_loop_append:
  "base_chunk_loop tr (xs @ ys) acc s =
     (case base_chunk_loop tr xs acc s of
        (Inl e, s') \<Rightarrow> (Inl e, s')
      | (Inr acc', s') \<Rightarrow> base_chunk_loop tr ys acc' s')"
  by (induction xs arbitrary: acc s) (auto split: prod.splits sum.splits)

lemma openai_chunk_loop_append:
  "openai_chunk_loop api m (xs @ ys) acc s =
     (case openai_chunk_loop api m xs acc s of
        (Inl e, s') \<Rightarrow> (Inl e, s')
      | (Inr acc', s') \<Rightarrow> openai_chunk_loop api m ys acc' s')"
  by (induction xs arbitrary: acc s) (auto split: prod.splits sum.splits)

lemma base_chunk_loop_acc:
  "base_chunk_loop tr cs acc s = (Inr ts, s') \<Longrightarrow>
     \<exists>new. ts = acc @ new \<and> length new = length cs"
proof (induction cs arbitrary: acc s)
  case Nil
  then show ?case by simp
next
  case (Cons c cs)
  from Cons.prems obtain t s1 where
    "base_chunk_loop tr cs (acc @ [t]) s1 = (Inr ts, s')"
    by (auto split: if_splits prod.splits sum.splits)
  from Cons.IH [OF this] obtain new where "ts = (acc @ [t]) @ new" "length new = length cs"
    by blast
  then have "ts = acc @ (t # new) \<and> length (t # new) = length (c # cs)" by simp
  then show ?case by blast
qed

lemma openai_chunk_loop_acc:
  "openai_chunk_loop api m cs acc s = (Inr ts, s') \<Longrightarrow>
     \<exists>new. ts = acc @ new \<and> length new = length cs"
proof (induction cs arbitrary: acc s)
  case Nil
  then show ?case by simp
next
  case (Cons c cs)
  from Cons.prems obtain t s1 where
    "openai_chunk_loop api m cs (acc @ [t]) s1 = (Inr ts, s')"
    by (auto split: if_splits prod.splits sum.splits)
  from Cons.IH [OF this] obtain new where "ts = (acc @ [t]) @ new" "length new = length cs"
    by blast
  then have "ts = acc @ (t # new) \<and> length (t # new) = length (c # cs)" by simp
  then show ?case by blast
qed

lemma base_chunk_loop_index:
  "base_chunk_loop tr cs acc s = (Inr ts, s') \<Longrightarrow> i < length cs \<Longrightarrow>
     \<exists>s_i s_i'. base_chunk_loop tr (take i cs) acc s = (Inr (take (length acc + i) ts), s_i) \<and>
       \<not> should_cancel s_i \<and>
       tr (cs ! i) s_i = (Inr (ts ! (length acc + i)), s_i')"
proof (induction cs arbitrary: acc s i)
  case Nil
  then show ?case by simp
next
  case (Cons c cs)
  from Cons.prems(1) obtain t s1 where
    nc: "\<not> should_cancel s" and tr: "tr c s = (Inr t, s1)" and
    rest: "base_chunk_loop tr cs (acc @ [t]) s1 = (Inr ts, s')"
    by (auto split: if_splits prod.splits sum.splits)
  from base_chunk_loop_acc [OF rest] obtain new where ts: "ts = (acc @ [t]) @ new" by blast
  show ?case
  proof (cases i)
    case 0
    from ts have "take (length acc) ts = acc" "ts ! length acc = t" by simp_all
    with 0 nc tr show ?thesis by simp
  next
    case (Suc j)
    with Cons.prems(2) have "j < length cs" by simp
    from Cons.IH [OF rest this] obtain s_i s_i' where
      "base_chunk_loop tr (take j cs) (acc @ [t]) s1 = (Inr (take (length (acc @ [t]) + j) ts), s_i)"
      "\<not> should_cancel s_i" "tr (cs ! j) s_i = (Inr (ts ! (length (acc @ [t]) + j)), s_i')"
      by blast
    with Suc nc tr show ?thesis by simp
  qed
qed

lemma openai_chunk_loop_index:
  "openai_chunk_loop api m cs acc s = (Inr ts, s') \<Longrightarrow> i < length cs \<Longrightarrow>
     \<exists>resp. reply_result (api (length (api_log s) + i) m (cs ! i)) = Inr resp \<and>
       ts ! (length acc + i) = strip resp"
proof (induction cs arbitrary: acc s i)
  case Nil
  then show ?case by simp
next
  case (Cons c cs)
  from Cons.prems(1) obtain resp s1 where
    rq: "api_request api m c s = (Inr resp, s1)" and
    rest: "openai_chunk_loop api m cs (acc @ [strip resp]) s1 = (Inr ts, s')"
    by (auto split: if_splits prod.splits sum.splits)
  note d = api_requestD [OF rq]
  from openai_chunk_loop_acc [OF rest] obtain new where ts: "ts = (acc @ [strip resp]) @ new"
    by blast
  show ?case
  proof (cases i)
    case 0
    from ts have "ts ! length acc = strip resp" by simp
    with 0 d(1) [symmetric] show ?thesis by simp
  next
    case (Suc j)
    with Cons.prems(2) have "j < length cs" by simp
    from Cons.IH [OF rest this] obtain resp' where
      "reply_result (api (length (api_log s1) + j) m (cs ! j)) = Inr resp'"
      "ts ! (length (acc @ [strip resp]) + j) = strip resp'"
      by blast
    with Suc d(2) show ?thesis by simp
  qed
qed

lemma openai_chunk_loop_log_complete:
  "openai_chunk_loop api m cs acc s = (Inr ts, s') \<Longrightarrow>
     map call_file (api_log s') = map call_file (api_log s) @ cs"
proof (induction cs arbitrary: acc s)
  case Nil
  then show ?case by simp
next
  case (Cons c cs)
  from Cons.prems(1) obtain resp s1 where
    rq: "api_request api m c s = (Inr resp, s1)" and
    rest: "openai_chunk_loop api m cs (acc @ [strip resp]) s1 = (Inr ts, s')"
    by (auto split: if_splits prod.splits sum.splits)
  from Cons.IH [OF rest] api_requestD(2) [OF rq] show ?case by simp
qed

text \<open>
  Claim C5. Let the first \<open>i\<close> iterations of the chunk loop end normally in a state
  \<open>s_i\<close> in which the cancellation flag is set, with chunk \<open>i\<close> still to come. Then the
  default \<^verbatim>\<open>transcribe_chunks\<close> raises \<^verbatim>\<open>Exception("Transcription cancelled")\<close> and leaves
  the object in the state \<open>s_i\<close>: \<open>transcribe\<close> is applied to no further chunk. The
  same holds for \<^verbatim>\<open>OpenAIBackend.transcribe_chunks\<close>, whose loop starts after the flag was
  reset: it raises the same exception, and the requests logged are those for the first
  \<open>i\<close> chunks only. The first part holds for every \<open>transcribe\<close>, so also for one
  that records its calls in the object.
\<close>

theorem cancellation_observed_at_iteration_start:
  assumes "i < length chunk_files"
  shows
   "(\<forall>acc s_i.
       base_chunk_loop transcribe (take i chunk_files) [] self = (Inr acc, s_i) \<and>
       should_cancel s_i \<longrightarrow>
       transcribe_chunks combine transcribe chunk_files self =
         (Inl (Exception ''Transcription cancelled''), s_i)) \<and>
    (\<forall>acc s_i.
       is_available oself \<and>
       openai_chunk_loop api (get_api_model_name oself) (take i chunk_files) []
         (reset_cancel_flag (oself\<lparr>is_transcribing := True\<rparr>)) = (Inr acc, s_i) \<and>
       should_cancel s_i \<longrightarrow>
       openai_transcribe_chunks combine api chunk_files oself =
         (Inl (Exception ''Transcription cancelled''), s_i\<lparr>is_transcribing := False\<rparr>) \<and>
       map call_file (api_log (snd (openai_transcribe_chunks combine api chunk_files oself))) =
         map call_file (api_log oself) @ take i chunk_files)"
proof (intro conjI allI impI)
  from assms obtain c rest where d: "drop i chunk_files = c # rest"
    by (cases "drop i chunk_files") auto
  have split: "chunk_files = take i chunk_files @ c # rest"
    using d by (metis append_take_drop_id)
  {
    fix acc s_i
    assume h: "base_chunk_loop transcribe (take i chunk_files) [] self = (Inr acc, s_i) \<and>
       should_cancel s_i"
    have "base_chunk_loop transcribe chunk_files [] self =
        base_chunk_loop transcribe (c # rest) acc s_i"
      using h base_chunk_loop_append [of transcribe "take i chunk_files" "c # rest" "[]" self]
        split by simp
    with h show "transcribe_chunks combine transcribe chunk_files self =
         (Inl (Exception ''Transcription cancelled''), s_i)"
      by (simp add: transcribe_chunks_def)
  }
  {
    fix acc s_i
    let ?s1 = "reset_cancel_flag (oself\<lparr>is_transcribing := True\<rparr>)"
    assume h: "is_available oself \<and>
       openai_chunk_loop api (get_api_model_name oself) (take i chunk_files) [] ?s1 = (Inr acc, s_i) \<and>
       should_cancel s_i"
    have m: "get_api_model_name ?s1 = get_api_model_name oself"
      by (simp add: get_api_model_name_def reset_cancel_flag_def)
    have "openai_chunk_loop api (get_api_model_name oself) chunk_files [] ?s1 =
        openai_chunk_loop api (get_api_model_name oself) (c # rest) acc s_i"
      using h openai_chunk_loop_append
        [of api "get_api_model_name oself" "take i chunk_files" "c # rest" "[]" ?s1]
        split by simp
    with h have lp: "openai_chunk_loop api (get_api_model_name oself) chunk_files [] ?s1 =
        (Inl (Exception ''Transcription cancelled''), s_i)"
      by simp
    from h show r: "openai_transcribe_chunks combine api chunk_files oself =
         (Inl (Exception ''Transcription cancelled''), s_i\<lparr>is_transcribing := False\<rparr>)"
      by (simp add: openai_transcribe_chunks_def transcribe_chunks_try_def Let_def m lp)
    from h openai_chunk_loop_log_complete
      [of api "get_api_model_name oself" "take i chunk_files" "[]" ?s1 acc s_i]
    have "map call_file (api_log s_i) = map call_file (api_log oself) @ take i chunk_files"
      by (simp add: reset_cancel_flag_def)
    then show "map call_file (api_log (snd (openai_transcribe_chunks combine api chunk_files oself))) =
         map call_file (api_log oself) @ take i chunk_files"
      by (simp add: r)
  }
qed

text \<open>
  The theorem on three chunks. With a \<open>transcribe\<close> that ignores the cancellation arriving
  during the first chunk, the default implementation raises before the second chunk. With a
  cancellation during the second request, \<^verbatim>\<open>OpenAIBackend.transcribe_chunks\<close> raises before
  the third: two requests are logged.
\<close>

theorem cancellation_observed_at_iteration_start_witness:
  "transcribe_chunks join_with_space cancelled_while_transcribing
     [''c1.wav'', ''c2.wav'', ''c3.wav''] backend_init =
     (Inl (Exception ''Transcription cancelled''), cancel_transcription backend_init) \<and>
   fst (openai_transcribe_chunks join_with_space (cancel_during_request 1)
     [''c1.wav'', ''c2.wav'', ''c3.wav''] example_backend) =
     Inl (Exception ''Transcription cancelled'') \<and>
   map call_file (api_log (snd (openai_transcribe_chunks join_with_space (cancel_during_request 1)
     [''c1.wav'', ''c2.wav'', ''c3.wav''] example_backend))) = [''c1.wav'', ''c2.wav'']"
proof -
  let ?cs = "[''c1.wav'', ''c2.wav'', ''c3.wav'']"
  let ?s2 = "example_backend\<lparr>is_transcribing := True, should_cancel := True,
      api_log := [\<lparr>call_model = ''whisper-1'', call_file = ''c1.wav'', call_transcribing = True\<rparr>,
                  \<lparr>call_model = ''whisper-1'', call_file = ''c2.wav'', call_transcribing = True\<rparr>]\<rparr>"
  have b: "base_chunk_loop cancelled_while_transcribing (take 1 ?cs) [] backend_init =
      (Inr [''c1.wav''], cancel_transcription backend_init) \<and>
      should_cancel (cancel_transcription backend_init)"
    by (simp add: cancelled_while_transcribing_def cancel_transcription_def backend_init_def)
  have o: "is_available example_backend \<and>
      openai_chunk_loop (cancel_during_request 1) (get_api_model_name example_backend)
        (take 2 ?cs) [] (reset_cancel_flag (example_backend\<lparr>is_transcribing := True\<rparr>)) =
        (Inr [''c1.wav'', ''c2.wav''], ?s2) \<and> should_cancel ?s2"
    by (simp add: take_Suc_conv_app_nth numeral_2_eq_2
        reset_cancel_flag_def api_request_def cancel_during_request_def cancel_transcription_def
        get_api_model_name_def is_available_def example_backend_def openai_backend_init_def
        initialize_client_def strip_padded)
  have i1: "(1::nat) < length ?cs" and i2: "(2::nat) < length ?cs" by simp_all
  from cancellation_observed_at_iteration_start [OF i1, of cancelled_while_transcribing backend_init
      join_with_space example_backend "cancel_during_request 1"] b
  have 1: "transcribe_chunks join_with_space cancelled_while_transcribing ?cs backend_init =
     (Inl (Exception ''Transcription cancelled''), cancel_transcription backend_init)"
    by blast
  from cancellation_observed_at_iteration_start [OF i2, of cancelled_while_transcribing backend_init
      join_with_space example_backend "cancel_during_request 1"] o
  have 2: "openai_transcribe_chunks join_with_space (cancel_during_request 1) ?cs example_backend =
         (Inl (Exception ''Transcription cancelled''), ?s2\<lparr>is_transcribing := False\<rparr>) \<and>
       map call_file (api_log (snd (openai_transcribe_chunks join_with_space
         (cancel_during_request 1) ?cs example_backend))) =
         map call_file (api_log example_backend) @ take 2 ?cs"
    by blast
  from 1 2 show ?thesis by (simp add: example_backend_simps)
qed

text \<open>
  Claim C6. When the default \<^verbatim>\<open>transcribe_chunks\<close> returns, the text is
  \<^verbatim>\<open>combine_transcriptions\<close> of the list the loop built; the list is as long as the list
  of chunk files, and its entry \<open>i\<close> is what \<open>transcribe\<close> returned for chunk \<open>i\<close>, in
  the state the first \<open>i\<close> chunks left. For \<^verbatim>\<open>OpenAIBackend.transcribe_chunks\<close> entry
  \<open>i\<close> is the stripped response to the \<open>i\<close>-th request of the call, which is the
  request for chunk \<open>i\<close>.
\<close>

theorem chunk_order_preserved:
  "(transcribe_chunks combine transcribe chunk_files self = (Inr text, self') \<longrightarrow>
      (\<exists>transcriptions.
         base_chunk_loop transcribe chunk_files [] self = (Inr transcriptions, self') \<and>
         text = combine transcriptions \<and>
         length transcriptions = length chunk_files \<and>
         (\<forall>i < length chunk_files. \<exists>s_i s_i'.
            base_chunk_loop transcribe (take i chunk_files) [] self =
              (Inr (take i transcriptions), s_i) \<and>
            transcribe (chunk_files ! i) s_i = (Inr (transcriptions ! i), s_i')))) \<and>
   (openai_transcribe_chunks combine api chunk_files oself = (Inr text, oself') \<longrightarrow>
      (\<exists>transcriptions s2.
         openai_chunk_loop api (get_api_model_name oself) chunk_files []
           (reset_cancel_flag (oself\<lparr>is_transcribing := True\<rparr>)) = (Inr transcriptions, s2) \<and>
         text = combine transcriptions \<and>
         length transcriptions = length chunk_files \<and>
         (\<forall>i < length chunk_files. \<exists>resp.
            reply_result (api (length (api_log oself) + i) (get_api_model_name oself)
              (chunk_files ! i)) = Inr resp \<and>
            transcriptions ! i = strip resp)))"
proof (intro conjI impI)
  assume h: "transcribe_chunks combine transcribe chunk_files self = (Inr text, self')"
  then obtain ts where lp: "base_chunk_loop transcribe chunk_files [] self = (Inr ts, self')"
    and tx: "text = combine ts"
    by (auto simp: transcribe_chunks_def split: prod.splits sum.splits)
  from base_chunk_loop_acc [OF lp] have len: "length ts = length chunk_files" by auto
  have "\<forall>i < length chunk_files. \<exists>s_i s_i'.
            base_chunk_loop transcribe (take i chunk_files) [] self = (Inr (take i ts), s_i) \<and>
            transcribe (chunk_files ! i) s_i = (Inr (ts ! i), s_i')"
  proof (intro allI impI)
    fix i assume "i < length chunk_files"
    from base_chunk_loop_index [OF lp this]
    show "\<exists>s_i s_i'.
            base_chunk_loop transcribe (take i chunk_files) [] self = (Inr (take i ts), s_i) \<and>
            transcribe (chunk_files ! i) s_i = (Inr (ts ! i), s_i')"
      by auto
  qed
  with lp tx len
  show "\<exists>transcriptions.
         base_chunk_loop transcribe chunk_files [] self = (Inr transcriptions, self') \<and>
         text = combine transcriptions \<and>
         length transcriptions = length chunk_files \<and>
         (\<forall>i < length chunk_files. \<exists>s_i s_i'.
            base_chunk_loop transcribe (take i chunk_files) [] self =
              (Inr (take i transcriptions), s_i) \<and>
            transcribe (chunk_files ! i) s_i = (Inr (transcriptions ! i), s_i'))"
    by blast
next
  let ?s1 = "reset_cancel_flag (oself\<lparr>is_transcribing := True\<rparr>)"
  have m: "get_api_model_name ?s1 = get_api_model_name oself"
    by (simp add: get_api_model_name_def reset_cancel_flag_def)
  assume h: "openai_transcribe_chunks combine api chunk_files oself = (Inr text, oself')"
  then obtain ts s2 where
    lp: "openai_chunk_loop api (get_api_model_name oself) chunk_files [] ?s1 = (Inr ts, s2)"
    and tx: "text = combine ts"
    by (auto simp: openai_transcribe_chunks_def transcribe_chunks_try_def Let_def m not_available_def
        split: if_splits prod.splits sum.splits)
  from openai_chunk_loop_acc [OF lp] have len: "length ts = length chunk_files" by auto
  have "\<forall>i < length chunk_files. \<exists>resp.
            reply_result (api (length (api_log oself) + i) (get_api_model_name oself)
              (chunk_files ! i)) = Inr resp \<and> ts ! i = strip resp"
  proof (intro allI impI)
    fix i assume "i < length chunk_files"
    from openai_chunk_loop_index [OF lp this]
    show "\<exists>resp.
            reply_result (api (length (api_log oself) + i) (get_api_model_name oself)
              (chunk_files ! i)) = Inr resp \<and> ts ! i = strip resp"
      by (simp add: reset_cancel_flag_def)
  qed
  with lp tx len
  show "\<exists>transcriptions s2.
         openai_chunk_loop api (get_api_model_name oself) chunk_files [] ?s1 = (Inr transcriptions, s2) \<and>
         text = combine transcriptions \<and>
         length transcriptions = length chunk_files \<and>
         (\<forall>i < length chunk_files. \<exists>resp.
            reply_result (api (length (api_log oself) + i) (get_api_model_name oself)
              (chunk_files ! i)) = Inr resp \<and>
            transcriptions ! i = strip resp)"
    by blast
qed

text \<open>
  The theorem on two chunks, for both implementations.
\<close>

theorem chunk_order_preserved_witness:
  "transcribe_chunks join_with_space echo_transcribe [''c1.wav'', ''c2.wav''] backend_init =
     (Inr ''c1.wav c2.wav'', backend_init) \<and>
   (\<exists>transcriptions.
      base_chunk_loop echo_transcribe [''c1.wav'', ''c2.wav''] [] backend_init =
        (Inr transcriptions, backend_init) \<and>
      length transcriptions = 2 \<and>
      transcriptions ! 0 = ''c1.wav'' \<and> transcriptions ! 1 = ''c2.wav'') \<and>
   (\<exists>transcriptions s2.
      openai_chunk_loop (cancel_during_request 2) ''whisper-1'' [''c1.wav'', ''c2.wav''] []
        (reset_cancel_flag (example_backend\<lparr>is_transcribing := True\<rparr>)) = (Inr transcriptions, s2) \<and>
      length transcriptions = 2 \<and>
      transcriptions ! 0 = ''c1.wav'' \<and> transcriptions ! 1 = ''c2.wav'')"
proof -
  let ?cs = "[''c1.wav'', ''c2.wav'']"
  have b: "transcribe_chunks join_with_space echo_transcribe ?cs backend_init =
     (Inr ''c1.wav c2.wav'', backend_init)"
    by (simp add: transcribe_chunks_def echo_transcribe_def backend_init_def)
  note o = example_quiet_run
  note t = chunk_order_preserved [of join_with_space echo_transcribe ?cs backend_init
      "''c1.wav c2.wav''" backend_init "cancel_during_request 2" example_backend
      "snd (openai_transcribe_chunks join_with_space (cancel_during_request 2) ?cs example_backend)"]
  from t b obtain ts where ts:
    "base_chunk_loop echo_transcribe ?cs [] backend_init = (Inr ts, backend_init)"
    "length ts = length ?cs"
    "\<forall>i < length ?cs. \<exists>s_i s_i'.
        base_chunk_loop echo_transcribe (take i ?cs) [] backend_init = (Inr (take i ts), s_i) \<and>
        echo_transcribe (?cs ! i) s_i = (Inr (ts ! i), s_i')"
    by blast
  have i0: "0 < length ?cs" and i1: "1 < length ?cs" by simp_all
  from ts(3) [rule_format, OF i0] obtain a0 a0' :: backend where
    "echo_transcribe (?cs ! 0) a0 = (Inr (ts ! 0), a0')" by blast
  then have e0: "ts ! 0 = ''c1.wav''" by (simp add: echo_transcribe_def)
  from ts(3) [rule_format, OF i1] obtain a1 a1' :: backend where
    "echo_transcribe (?cs ! 1) a1 = (Inr (ts ! 1), a1')" by blast
  then have e1: "ts ! 1 = ''c2.wav''" by (simp add: echo_transcribe_def)
  from t o obtain os s2 where os:
    "openai_chunk_loop (cancel_during_request 2) (get_api_model_name example_backend) ?cs []
        (reset_cancel_flag (example_backend\<lparr>is_transcribing := True\<rparr>)) = (Inr os, s2)"
    "length os = length ?cs"
    "\<forall>i < length ?cs. \<exists>resp.
        reply_result (cancel_during_request 2 (length (api_log example_backend) + i)
          (get_api_model_name example_backend) (?cs ! i)) = Inr resp \<and> os ! i = strip resp"
    by auto
  from os(3) [rule_format, OF i0] obtain r0 where
    "reply_result (cancel_during_request 2 (length (api_log example_backend) + 0)
          (get_api_model_name example_backend) (?cs ! 0)) = Inr r0" "os ! 0 = strip r0"
    by blast
  then have f0: "os ! 0 = ''c1.wav''"
    by (auto simp: cancel_during_request_def strip_padded)
  from os(3) [rule_format, OF i1] obtain r1 where
    "reply_result (cancel_during_request 2 (length (api_log example_backend) + 1)
          (get_api_model_name example_backend) (?cs ! 1)) = Inr r1" "os ! 1 = strip r1"
    by blast
  then have f1: "os ! 1 = ''c2.wav''"
    by (auto simp: cancel_during_request_def strip_padded)
  from b ts(1,2) e0 e1 os(1,2) f0 f1 show ?thesis
    by (auto simp: example_backend_simps)
qed

section \<open>Properties of the transcription workers\<close>

lemma root_after_simps:
  "cleanup_calls (root_after cb w) = cleanup_calls w"
  "scheduled (root_after cb w) = scheduled w @ [cb]"
  "current_backend (root_after cb w) = current_backend w"
  "warnings (root_after cb w) = warnings w"
  by (simp_all add: root_after_def)

lemma split_progress_simps:
  "cleanup_calls (foldl (\<lambda>w message. root_after (UpdateStatus (SplitProgress message)) w) w0 ms) =
     cleanup_calls w0"
  "scheduled (foldl (\<lambda>w message. root_after (UpdateStatus (SplitProgress message)) w) w0 ms) =
     scheduled w0 @ map (\<lambda>message. UpdateStatus (SplitProgress message)) ms"
  "current_backend (foldl (\<lambda>w message. root_after (UpdateStatus (SplitProgress message)) w) w0 ms) =
     current_backend w0"
  by (induction ms arbitrary: w0) (simp_all add: root_after_simps)

lemma fallback_chunk_loop_cleanup:
  "fallback_chunk_loop tr i n cs acc w = (r, w') \<Longrightarrow> cleanup_calls w' = cleanup_calls w"
proof (induction cs arbitrary: i acc w)
  case Nil
  then show ?case by simp
next
  case (Cons c cs)
  let ?w1 = "root_after (UpdateStatus (TranscribingChunk (i + 1) n)) w"
  obtain r1 b where t: "tr c (current_backend ?w1) = (r1, b)"
    by (cases "tr c (current_backend ?w1)")
  show ?case
  proof (cases r1)
    case (Inl e)
    with Cons.prems t have "w' = ?w1\<lparr>current_backend := b\<rparr>" by (simp add: Let_def)
    then show ?thesis by (simp add: root_after_simps)
  next
    case (Inr x)
    with Cons.prems t
    have "fallback_chunk_loop tr (i + 1) n cs (acc @ [x]) (?w1\<lparr>current_backend := b\<rparr>) = (r, w')"
      by (simp add: Let_def)
    from Cons.IH [OF this] show ?thesis by (simp add: root_after_simps)
  qed
qed

lemma transcribe_step_cleanup:
  "transcribe_step ap methods cs w = (r, w') \<Longrightarrow> cleanup_calls w' = cleanup_calls w"
proof (cases "transcribe_chunks_m methods")
  case None
  assume h: "transcribe_step ap methods cs w = (r, w')"
  obtain r1 w1 where f: "fallback_chunk_loop (transcribe_m methods) 0 (length cs) cs [] w = (r1, w1)"
    by (cases "fallback_chunk_loop (transcribe_m methods) 0 (length cs) cs [] w")
  from fallback_chunk_loop_cleanup [OF f] h None f show ?thesis
    by (cases r1) (auto simp: transcribe_step_def root_after_simps)
next
  case (Some tc)
  assume h: "transcribe_step ap methods cs w = (r, w')"
  with Some show ?thesis
    by (auto simp: transcribe_step_def Let_def root_after_simps split: prod.splits)
qed

lemma large_audio_try_cleanup:
  "large_audio_try ap methods f w = (r, w') \<Longrightarrow> cleanup_calls w' = cleanup_calls w"
proof -
  assume h: "large_audio_try ap methods f w = (r, w')"
  obtain progress outcome where sp: "ap_split_audio_file ap f = (progress, outcome)"
    by (cases "ap_split_audio_file ap f")
  let ?w2 = "foldl (\<lambda>w message. root_after (UpdateStatus (SplitProgress message)) w)
                (root_after (UpdateStatus ProcessingLargeAudioFile) w) progress"
  have c2: "cleanup_calls ?w2 = cleanup_calls w"
    by (simp add: split_progress_simps root_after_simps)
  show ?thesis
  proof (cases outcome)
    case (Inl e)
    with h sp have "w' = ?w2" by (simp add: large_audio_try_def Let_def)
    with c2 show ?thesis by simp
  next
    case (Inr cs)
    show ?thesis
    proof (cases "cs = []")
      case True
      with h sp Inr have "w' = ?w2" by (simp add: large_audio_try_def Let_def)
      with c2 show ?thesis by simp
    next
      case False
      obtain r3 w3 where ts: "transcribe_step ap methods cs ?w2 = (r3, w3)"
        by (cases "transcribe_step ap methods cs ?w2")
      from transcribe_step_cleanup [OF ts] c2 have c3: "cleanup_calls w3 = cleanup_calls w" by simp
      from h sp Inr False ts c3 show ?thesis
        by (cases r3) (auto simp: large_audio_try_def Let_def root_after_simps)
    qed
  qed
qed

lemma except_clause_cleanup: "cleanup_calls (except_clause (r, w)) = cleanup_calls w"
  by (cases r) (simp_all add: except_clause_def root_after_simps)

lemma finally_clause_cleanup: "cleanup_calls (finally_clause ap w) = cleanup_calls w + 1"
  by (simp add: finally_clause_def Let_def split: option.splits)

text \<open>
  Claim C3. Both large-file workers call \<^verbatim>\<open>cleanup_temp_files\<close> exactly once, whatever the
  audio processor, the backend and the outcome: the count of calls grows by one.
\<close>

theorem cleanup_exactly_once:
  "cleanup_calls (transcribe_large_audio_from_file ap methods audio_file self) =
     cleanup_calls self + 1 \<and>
   cleanup_calls (transcribe_large_audio RECORDED_AUDIO_FILE ap methods self) =
     cleanup_calls self + 1"
proof -
  have "cleanup_calls (finally_clause ap (except_clause (large_audio_try ap methods f self))) =
      cleanup_calls self + 1" for f
  proof -
    obtain r w where t: "large_audio_try ap methods f self = (r, w)"
      by (cases "large_audio_try ap methods f self")
    from large_audio_try_cleanup [OF t] show ?thesis
      by (simp add: t finally_clause_cleanup except_clause_cleanup)
  qed
  then show ?thesis
    by (simp add: transcribe_large_audio_from_file_def transcribe_large_audio_def)
qed

text \<open>
  The theorem on the example window, once through the fallback branch with a cancelled
  request and once through \<^verbatim>\<open>transcribe_chunks\<close>.
\<close>

theorem cleanup_exactly_once_witness:
  "cleanup_calls (transcribe_large_audio_from_file example_audio_processor
       \<lparr>transcribe_m = openai_transcribe (cancel_during_request 0), transcribe_chunks_m = None\<rparr>
       ''recording.wav'' example_window) = 1 \<and>
   cleanup_calls (transcribe_large_audio ''recording.wav'' example_audio_processor
       \<lparr>transcribe_m = openai_transcribe (cancel_during_request 2),
         transcribe_chunks_m = Some (openai_transcribe_chunks join_with_space (cancel_during_request 2))\<rparr>
       example_window) = 1"
  using cleanup_exactly_once [of example_audio_processor
      "\<lparr>transcribe_m = openai_transcribe (cancel_during_request 0), transcribe_chunks_m = None\<rparr>"
      "''recording.wav''" example_window]
    cleanup_exactly_once [of example_audio_processor
      "\<lparr>transcribe_m = openai_transcribe (cancel_during_request 2),
         transcribe_chunks_m = Some (openai_transcribe_chunks join_with_space (cancel_during_request 2))\<rparr>"
      "''recording.wav''" example_window "''recording.wav''"]
  by (simp add: example_window_def)

lemma transcribe_step_Some:
  "transcribe_chunks_m methods = Some tc \<Longrightarrow>
   transcribe_step ap methods cs w =
     (case tc cs (current_backend w) of
        (r, b) \<Rightarrow> (r, (root_after (UpdateStatus (TranscribingChunks (length cs))) w)
                         \<lparr>current_backend := b\<rparr>))"
  by (simp add: transcribe_step_def Let_def root_after_simps)

lemma worker_scheduled_Some:
  assumes m: "transcribe_chunks_m methods = Some tc"
  shows "\<exists>new. scheduled (finally_clause ap (except_clause (large_audio_try ap methods f w))) =
            scheduled w @ new \<and> (\<forall>cb \<in> set new. \<not> fallback_status cb)"
proof -
  obtain progress outcome where sp: "ap_split_audio_file ap f = (progress, outcome)"
    by (cases "ap_split_audio_file ap f")
  let ?w2 = "foldl (\<lambda>w message. root_after (UpdateStatus (SplitProgress message)) w)
                (root_after (UpdateStatus ProcessingLargeAudioFile) w) progress"
  let ?pre = "UpdateStatus ProcessingLargeAudioFile #
                map (\<lambda>message. UpdateStatus (SplitProgress message)) progress"
  have s2: "scheduled ?w2 = scheduled w @ ?pre"
    by (simp add: split_progress_simps root_after_simps)
  have pre: "\<forall>cb \<in> set ?pre. \<not> fallback_status cb" by auto
  have fin: "scheduled (finally_clause ap x) = scheduled x" for x :: "'a main_window"
    by (simp add: finally_clause_def Let_def split: option.splits)
  show ?thesis
  proof (cases outcome)
    case (Inl e)
    with sp have "large_audio_try ap methods f w = (Inl e, ?w2)"
      by (simp add: large_audio_try_def Let_def)
    then have "scheduled (finally_clause ap (except_clause (large_audio_try ap methods f w))) =
        scheduled w @ (?pre @ [OnTranscriptionError (str_of e)])"
      by (simp add: fin except_clause_def root_after_simps s2)
    moreover have "\<forall>cb \<in> set (?pre @ [OnTranscriptionError (str_of e)]). \<not> fallback_status cb"
      by auto
    ultimately show ?thesis by blast
  next
    case (Inr cs)
    show ?thesis
    proof (cases "cs = []")
      case True
      with sp Inr have "large_audio_try ap methods f w =
          (Inl (Exception ''Failed to split audio file into chunks''), ?w2)"
        by (simp add: large_audio_try_def Let_def)
      then have "scheduled (finally_clause ap (except_clause (large_audio_try ap methods f w))) =
          scheduled w @ (?pre @ [OnTranscriptionError ''Failed to split audio file into chunks''])"
        by (simp add: fin except_clause_def root_after_simps s2)
      moreover have "\<forall>cb \<in> set (?pre @
          [OnTranscriptionError ''Failed to split audio file into chunks'']). \<not> fallback_status cb"
        by auto
      ultimately show ?thesis by blast
    next
      case False
      obtain r b where t: "tc cs (current_backend ?w2) = (r, b)"
        by (cases "tc cs (current_backend ?w2)")
      let ?w3 = "(root_after (UpdateStatus (TranscribingChunks (length cs))) ?w2)\<lparr>current_backend := b\<rparr>"
      have ts: "transcribe_step ap methods cs ?w2 = (r, ?w3)"
        by (simp add: transcribe_step_Some [OF m] t)
      have s3: "scheduled ?w3 = scheduled w @ (?pre @ [UpdateStatus (TranscribingChunks (length cs))])"
        by (simp add: root_after_simps s2)
      show ?thesis
      proof (cases r)
        case (Inl e)
        with sp Inr False ts have "large_audio_try ap methods f w = (Inl e, ?w3)"
          by (simp add: large_audio_try_def Let_def)
        then have "scheduled (finally_clause ap (except_clause (large_audio_try ap methods f w))) =
          scheduled w @ (?pre @ [UpdateStatus (TranscribingChunks (length cs)),
                                 OnTranscriptionError (str_of e)])"
          by (simp add: fin except_clause_def root_after_simps s3)
        moreover have "\<forall>cb \<in> set (?pre @ [UpdateStatus (TranscribingChunks (length cs)),
                                 OnTranscriptionError (str_of e)]). \<not> fallback_status cb"
          by auto
        ultimately show ?thesis by blast
      next
        case (Inr transcribed)
        with sp \<open>outcome = Inr cs\<close> False ts
        have "large_audio_try ap methods f w =
            (Inr (), root_after (OnTranscriptionComplete transcribed) ?w3)"
          by (simp add: large_audio_try_def Let_def)
        then have "scheduled (finally_clause ap (except_clause (large_audio_try ap methods f w))) =
          scheduled w @ (?pre @ [UpdateStatus (TranscribingChunks (length cs)),
                                 OnTranscriptionComplete transcribed])"
          by (simp add: fin except_clause_def root_after_simps s3)
        moreover have "\<forall>cb \<in> set (?pre @ [UpdateStatus (TranscribingChunks (length cs)),
                                 OnTranscriptionComplete transcribed]). \<not> fallback_status cb"
          by auto
        ultimately show ?thesis by blast
      qed
    qed
  qed
qed

lemma subclass_instance_attr:
  "transcribe_chunks_m (subclass_instance combine tr ov) =
     Some (case ov of Some overriding \<Rightarrow> overriding | None \<Rightarrow> transcribe_chunks combine tr)"
  by (simp add: subclass_instance_def)

text \<open>
  Claim C10. For an instance of a class derived from \<^verbatim>\<open>TranscriptionBackend\<close> the
  \<^verbatim>\<open>hasattr\<close> test holds, whether or not the class overrides \<^verbatim>\<open>transcribe_chunks\<close>; the
  workers queue none of the callbacks of the fallback branch, and step 2 is the call of
  the backend's \<^verbatim>\<open>transcribe_chunks\<close>.
\<close>

theorem fallback_branch_unreachable:
  "hasattr_transcribe_chunks (subclass_instance combine own_transcribe own_transcribe_chunks) \<and>
   (\<forall>cb \<in> set (drop (length (scheduled self))
        (scheduled (transcribe_large_audio_from_file ap
           (subclass_instance combine own_transcribe own_transcribe_chunks) audio_file self))).
      \<not> fallback_status cb) \<and>
   (\<forall>cb \<in> set (drop (length (scheduled self))
        (scheduled (transcribe_large_audio RECORDED_AUDIO_FILE ap
           (subclass_instance combine own_transcribe own_transcribe_chunks) self))).
      \<not> fallback_status cb) \<and>
   transcribe_step ap (subclass_instance combine own_transcribe own_transcribe_chunks)
       chunk_files self =
     (case (case own_transcribe_chunks of
              Some overriding \<Rightarrow> overriding
            | None \<Rightarrow> transcribe_chunks combine own_transcribe) chunk_files (current_backend self) of
        (r, b) \<Rightarrow> (r, (root_after (UpdateStatus (TranscribingChunks (length chunk_files))) self)
                         \<lparr>current_backend := b\<rparr>))"
proof (intro conjI)
  let ?m = "subclass_instance combine own_transcribe own_transcribe_chunks"
  show "hasattr_transcribe_chunks ?m"
    by (simp add: hasattr_transcribe_chunks_def subclass_instance_attr)
  have w: "\<forall>cb \<in> set (drop (length (scheduled self))
        (scheduled (finally_clause ap (except_clause (large_audio_try ap ?m f self))))).
      \<not> fallback_status cb" for f
  proof -
    from worker_scheduled_Some [OF subclass_instance_attr, of ap combine own_transcribe
        own_transcribe_chunks f self]
    obtain new where "scheduled (finally_clause ap (except_clause (large_audio_try ap ?m f self))) =
            scheduled self @ new" "\<forall>cb \<in> set new. \<not> fallback_status cb"
      by blast
    then show ?thesis by simp
  qed
  from w [of audio_file]
  show "\<forall>cb \<in> set (drop (length (scheduled self))
        (scheduled (transcribe_large_audio_from_file ap ?m audio_file self))). \<not> fallback_status cb"
    by (simp add: transcribe_large_audio_from_file_def)
  from w [of RECORDED_AUDIO_FILE]
  show "\<forall>cb \<in> set (drop (length (scheduled self))
        (scheduled (transcribe_large_audio RECORDED_AUDIO_FILE ap ?m self))). \<not> fallback_status cb"
    by (simp add: transcribe_large_audio_def)
  show "transcribe_step ap ?m chunk_files self =
     (case (case own_transcribe_chunks of
              Some overriding \<Rightarrow> overriding
            | None \<Rightarrow> transcribe_chunks combine own_transcribe) chunk_files (current_backend self) of
        (r, b) \<Rightarrow> (r, (root_after (UpdateStatus (TranscribingChunks (length chunk_files))) self)
                         \<lparr>current_backend := b\<rparr>))"
    by (rule transcribe_step_Some [OF subclass_instance_attr])
qed

text \<open>
  The theorem on a backend that inherits the default \<^verbatim>\<open>transcribe_chunks\<close>: the four
  callbacks queued, none of them of the fallback branch.
\<close>

theorem fallback_branch_unreachable_witness:
  "hasattr_transcribe_chunks
     (subclass_instance join_with_space (openai_transcribe (cancel_during_request 2)) None) \<and>
   scheduled (transcribe_large_audio_from_file example_audio_processor
     (subclass_instance join_with_space (openai_transcribe (cancel_during_request 2)) None)
     ''recording.wav'' example_window) =
     [UpdateStatus ProcessingLargeAudioFile,
      UpdateStatus (SplitProgress ''Splitting''),
      UpdateStatus (TranscribingChunks 2),
      OnTranscriptionComplete ''c1.wav c2.wav''] \<and>
   list_all (\<lambda>cb. \<not> fallback_status cb)
     (scheduled (transcribe_large_audio_from_file example_audio_processor
        (subclass_instance join_with_space (openai_transcribe (cancel_during_request 2)) None)
        ''recording.wav'' example_window))"
proof -
  let ?m = "subclass_instance join_with_space (openai_transcribe (cancel_during_request 2)) None"
  note t = fallback_branch_unreachable [of join_with_space
      "openai_transcribe (cancel_during_request 2)" None example_window example_audio_processor
      "''recording.wav''"]
  have s0: "scheduled example_window = []" by (simp add: example_window_def)
  have run: "scheduled (transcribe_large_audio_from_file example_audio_processor ?m
     ''recording.wav'' example_window) =
     [UpdateStatus ProcessingLargeAudioFile,
      UpdateStatus (SplitProgress ''Splitting''),
      UpdateStatus (TranscribingChunks 2),
      OnTranscriptionComplete ''c1.wav c2.wav'']"
    by (simp add: transcribe_large_audio_from_file_def finally_clause_def except_clause_def
        large_audio_try_def transcribe_step_def Let_def root_after_def subclass_instance_def
        example_audio_processor_def example_window_def example_default_run)
  from t s0 have "hasattr_transcribe_chunks ?m"
    and "\<forall>cb \<in> set (scheduled (transcribe_large_audio_from_file example_audio_processor ?m
            ''recording.wav'' example_window)). \<not> fallback_status cb"
    by simp_all
  with run show ?thesis by (simp only: list_all_iff simp_thms)
qed

lemma finally_clause_scheduled: "scheduled (finally_clause ap x) = scheduled x"
  by (simp add: finally_clause_def Let_def split: option.splits)

text \<open>
  Claim C2, as the code has it. An exception \<open>e\<close> that leaves the backend call, the
  cancellation \<^verbatim>\<open>Exception("Transcription cancelled")\<close> like any other, is caught by the one
  \<^verbatim>\<open>except Exception\<close> clause of the worker, which queues \<^verbatim>\<open>_on_transcription_error\<close> with
  \<^verbatim>\<open>str(e)\<close> as its last callback; for the cancellation that callback shows the error
  dialog ``Transcription failed: Transcription cancelled''. The neutral indicator
  ``Transcription Cancelled'' is shown by the cancel request,
  \<^verbatim>\<open>MainWindow.cancel_transcription\<close>, which also sets the flag.
\<close>

theorem cancellation_takes_error_path:
  "(ap_split_audio_file ap audio_file = (progress, Inr chunk_files) \<and> chunk_files \<noteq> [] \<and>
    transcribe_chunks_m methods = Some backend_transcribe_chunks \<and>
    backend_transcribe_chunks chunk_files (current_backend self) = (Inl e, b') \<longrightarrow>
      last (scheduled (transcribe_large_audio_from_file ap methods audio_file self)) =
        OnTranscriptionError (str_of e) \<and>
      last (scheduled (transcribe_large_audio audio_file ap methods self)) =
        OnTranscriptionError (str_of e)) \<and>
   (transcribe_m methods audio_file (current_backend self) = (Inl e, b') \<longrightarrow>
      last (scheduled (transcribe_audio_from_file methods audio_file self)) =
        OnTranscriptionError (str_of e)) \<and>
   str_of (Exception ''Transcription cancelled'') = ''Transcription cancelled'' \<and>
   run_callback (OnTranscriptionError ''Transcription cancelled'') =
     [ClearStatus,
      ShowError ''Error'' ''Transcription failed: Transcription cancelled'',
      SetStatus ''Ready'',
      ConfigButton ''cancel_button'' ''disabled'',
      ConfigButton ''start_button'' ''normal'',
      ConfigButton ''open_file_button'' ''normal''] \<and>
   (is_transcribing b \<longrightarrow>
      window_cancel_transcription False (Some b) =
        ([ConfigButton ''start_button'' ''normal'',
          ConfigButton ''open_file_button'' ''normal'',
          ShowCanceling ''Transcription Cancelled'',
          ConfigButton ''cancel_button'' ''disabled''], Some (cancel_transcription b)))"
proof (intro conjI impI)
  assume h: "ap_split_audio_file ap audio_file = (progress, Inr chunk_files) \<and> chunk_files \<noteq> [] \<and>
    transcribe_chunks_m methods = Some backend_transcribe_chunks \<and>
    backend_transcribe_chunks chunk_files (current_backend self) = (Inl e, b')"
  let ?w2 = "foldl (\<lambda>w message. root_after (UpdateStatus (SplitProgress message)) w)
                (root_after (UpdateStatus ProcessingLargeAudioFile) self) progress"
  have cb: "current_backend ?w2 = current_backend self"
    by (simp add: split_progress_simps root_after_simps)
  from h have ts: "transcribe_step ap methods chunk_files ?w2 =
      (Inl e, (root_after (UpdateStatus (TranscribingChunks (length chunk_files))) ?w2)
                 \<lparr>current_backend := b'\<rparr>)"
    by (simp add: transcribe_step_Some cb)
  from h have "large_audio_try ap methods audio_file self =
      (Inl e, (root_after (UpdateStatus (TranscribingChunks (length chunk_files))) ?w2)
                 \<lparr>current_backend := b'\<rparr>)"
    by (simp add: large_audio_try_def Let_def ts)
  then have l: "last (scheduled (finally_clause ap (except_clause
      (large_audio_try ap methods audio_file self)))) = OnTranscriptionError (str_of e)"
    by (simp add: finally_clause_scheduled except_clause_def root_after_simps)
  from l show "last (scheduled (transcribe_large_audio_from_file ap methods audio_file self)) =
        OnTranscriptionError (str_of e)"
    by (simp add: transcribe_large_audio_from_file_def)
  from l show "last (scheduled (transcribe_large_audio audio_file ap methods self)) =
        OnTranscriptionError (str_of e)"
    by (simp add: transcribe_large_audio_def)
next
  assume "transcribe_m methods audio_file (current_backend self) = (Inl e, b')"
  then show "last (scheduled (transcribe_audio_from_file methods audio_file self)) =
        OnTranscriptionError (str_of e)"
    by (simp add: transcribe_audio_from_file_def Let_def root_after_simps)
next
  show "str_of (Exception ''Transcription cancelled'') = ''Transcription cancelled''"
    by simp
  show "run_callback (OnTranscriptionError ''Transcription cancelled'') =
     [ClearStatus,
      ShowError ''Error'' ''Transcription failed: Transcription cancelled'',
      SetStatus ''Ready'',
      ConfigButton ''cancel_button'' ''disabled'',
      ConfigButton ''start_button'' ''normal'',
      ConfigButton ''open_file_button'' ''normal'']"
    by (simp add: on_transcription_error_def)
next
  assume "is_transcribing b"
  then show "window_cancel_transcription False (Some b) =
        ([ConfigButton ''start_button'' ''normal'',
          ConfigButton ''open_file_button'' ''normal'',
          ShowCanceling ''Transcription Cancelled'',
          ConfigButton ''cancel_button'' ''disabled''], Some (cancel_transcription b))"
    by (simp add: window_cancel_transcription_def)
qed

lemma example_cancelled_run:
  "openai_transcribe_chunks join_with_space (cancel_during_request 0)
     [''c1.wav'', ''c2.wav''] example_backend =
   (Inl (Exception ''Transcription cancelled''),
    example_backend\<lparr>should_cancel := True,
      api_log := [\<lparr>call_model = ''whisper-1'', call_file = ''c1.wav'', call_transcribing = True\<rparr>]\<rparr>)"
  by (simp add: openai_transcribe_chunks_def transcribe_chunks_try_def Let_def example_backend_simps
      reset_cancel_flag_def api_request_def cancel_during_request_def cancel_transcription_def
      get_api_model_name_def is_available_def example_backend_def openai_backend_init_def
      initialize_client_def)

text \<open>
  The theorem on the example window, with a cancellation during the first request: the last
  callback of the large-file worker and of the single-file worker is the error callback.
\<close>

theorem cancellation_takes_error_path_witness:
  "last (scheduled (transcribe_large_audio_from_file example_audio_processor
           (subclass_instance join_with_space (openai_transcribe (cancel_during_request 0))
              (Some (openai_transcribe_chunks join_with_space (cancel_during_request 0))))
           ''recording.wav'' example_window)) = OnTranscriptionError ''Transcription cancelled'' \<and>
   last (scheduled (transcribe_audio_from_file
           (subclass_instance join_with_space (openai_transcribe (cancel_during_request 0))
              (Some (openai_transcribe_chunks join_with_space (cancel_during_request 0))))
           ''c1.wav'' example_window)) = OnTranscriptionError ''Transcription cancelled'' \<and>
   fst (window_cancel_transcription False (Some (example_backend\<lparr>is_transcribing := True\<rparr>))) =
     [ConfigButton ''start_button'' ''normal'',
      ConfigButton ''open_file_button'' ''normal'',
      ShowCanceling ''Transcription Cancelled'',
      ConfigButton ''cancel_button'' ''disabled'']"
proof -
  let ?m = "subclass_instance join_with_space (openai_transcribe (cancel_during_request 0))
              (Some (openai_transcribe_chunks join_with_space (cancel_during_request 0)))"
  let ?b1 = "example_backend\<lparr>should_cancel := True,
      api_log := [\<lparr>call_model = ''whisper-1'', call_file = ''c1.wav'', call_transcribing = True\<rparr>]\<rparr>"
  have large: "ap_split_audio_file example_audio_processor ''recording.wav'' =
        ([''Splitting''], Inr [''c1.wav'', ''c2.wav'']) \<and> [''c1.wav'', ''c2.wav''] \<noteq> [] \<and>
      transcribe_chunks_m ?m = Some (openai_transcribe_chunks join_with_space (cancel_during_request 0)) \<and>
      openai_transcribe_chunks join_with_space (cancel_during_request 0) [''c1.wav'', ''c2.wav'']
        (current_backend example_window) = (Inl (Exception ''Transcription cancelled''), ?b1)"
    by (simp add: example_audio_processor_def subclass_instance_def example_window_def
        example_cancelled_run)
  have small: "transcribe_m ?m ''c1.wav'' (current_backend example_window) =
      (Inl (Exception ''Transcription cancelled''), ?b1)"
    by (simp add: subclass_instance_def example_window_def openai_transcribe_def transcribe_try_def
        Let_def reset_cancel_flag_def api_request_def cancel_during_request_def
        cancel_transcription_def get_api_model_name_def is_available_def example_backend_def
        openai_backend_init_def initialize_client_def)
  have tr: "is_transcribing (example_backend\<lparr>is_transcribing := True\<rparr>)" by simp
  from cancellation_takes_error_path
    [of example_audio_processor "''recording.wav''" "[''Splitting'']" "[''c1.wav'', ''c2.wav'']" ?m
      "openai_transcribe_chunks join_with_space (cancel_during_request 0)" example_window
      "Exception ''Transcription cancelled''" ?b1 "example_backend\<lparr>is_transcribing := True\<rparr>"]
    large
  have 1: "last (scheduled (transcribe_large_audio_from_file example_audio_processor ?m
           ''recording.wav'' example_window)) = OnTranscriptionError ''Transcription cancelled''"
    by simp
  from cancellation_takes_error_path
    [of example_audio_processor "''c1.wav''" "[''Splitting'']" "[''c1.wav'', ''c2.wav'']" ?m
      "openai_transcribe_chunks join_with_space (cancel_during_request 0)" example_window
      "Exception ''Transcription cancelled''" ?b1 "example_backend\<lparr>is_transcribing := True\<rparr>"]
    small tr
  have 2: "last (scheduled (transcribe_audio_from_file ?m ''c1.wav'' example_window)) =
      OnTranscriptionError ''Transcription cancelled''"
    and 3: "fst (window_cancel_transcription False
        (Some (example_backend\<lparr>is_transcribing := True\<rparr>))) =
     [ConfigButton ''start_button'' ''normal'',
      ConfigButton ''open_file_button'' ''normal'',
      ShowCanceling ''Transcription Cancelled'',
      ConfigButton ''cancel_button'' ''disabled'']"
    by simp_all
  from 1 2 3 show ?thesis by blast
qed

text \<open>
  A job on two chunks in which the user cancels during the first request: the flag is
  observed at the start of the second iteration, and the callbacks queued by the worker
  show the error dialog.
\<close>

theorem cancelled_job_error_dialog_counterexample:
  "fst (openai_transcribe_chunks join_with_space (cancel_during_request 0)
          [''c1.wav'', ''c2.wav''] example_backend) = Inl (Exception ''Transcription cancelled'') \<and>
   ShowError ''Error'' ''Transcription failed: Transcription cancelled''
     \<in> set (concat (map run_callback (scheduled
         (transcribe_large_audio_from_file example_audio_processor
            (subclass_instance join_with_space (openai_transcribe (cancel_during_request 0))
               (Some (openai_transcribe_chunks join_with_space (cancel_during_request 0))))
            ''recording.wav'' example_window))))"
proof -
  have "large_audio_try example_audio_processor
            (subclass_instance join_with_space (openai_transcribe (cancel_during_request 0))
               (Some (openai_transcribe_chunks join_with_space (cancel_during_request 0))))
            ''recording.wav'' example_window =
        (Inl (Exception ''Transcription cancelled''),
         example_window\<lparr>current_backend := example_backend\<lparr>should_cancel := True,
            api_log := [\<lparr>call_model = ''whisper-1'', call_file = ''c1.wav'',
                          call_transcribing = True\<rparr>]\<rparr>,
           scheduled := [UpdateStatus ProcessingLargeAudioFile,
                         UpdateStatus (SplitProgress ''Splitting''),
                         UpdateStatus (TranscribingChunks 2)]\<rparr>)"
    by (simp add: large_audio_try_def Let_def example_audio_processor_def transcribe_step_def
        subclass_instance_def root_after_def example_window_def example_cancelled_run)
  then show ?thesis
    by (simp add: transcribe_large_audio_from_file_def finally_clause_def except_clause_def
        root_after_def example_cancelled_run example_audio_processor_def example_window_def
        on_transcription_error_def)
qed

section \<open>The three ways to transcribe a list of chunks\<close>














end
